theory Spec2Isabelle
  imports Complex_Main "HOL-Library.Word"
begin

text \<open>
  The news chatbot backend: the session cache, the embedding client, the generation
  client, the vector store client, the chat endpoint and the ingestion script. Every
  source function is a HOL function of the same name. What lies outside the process is
  explicit: Redis and the vector database are stores that a service holds and returns
  changed; the answers of the embedding and generation endpoints, of the search, of the
  feed parser and of the HTML library, and the readings of the clock, are parameters. A
  function that can throw returns a sum with the error on the left; a function that sends
  requests returns the list of them.
\<close>

section \<open>JavaScript strings and errors\<close>

text \<open>
  A JavaScript string is a sequence of UTF-16 code units: \<open>length\<close> counts code units and
  \<open>substring\<close> cuts between them. ASCII literals of the source are written \<open>js ''...''\<close>.
\<close>

type_synonym jsstring = "16 word list"

definition js :: "string \<Rightarrow> jsstring" where
  "js s = map of_char s"

text \<open>
  The white space of \<open>String.prototype.trim\<close> and of the regular expression class \<open>\s\<close>:
  the ECMAScript WhiteSpace and LineTerminator code points.
\<close>

definition is_ws :: "16 word \<Rightarrow> bool" where
  "is_ws c \<longleftrightarrow>
     c = 0x9 \<or> c = 0xA \<or> c = 0xB \<or> c = 0xC \<or> c = 0xD \<or> c = 0x20 \<or> c = 0xA0 \<or>
     c = 0x1680 \<or> (0x2000 \<le> c \<and> c \<le> 0x200A) \<or> c = 0x2028 \<or> c = 0x2029 \<or>
     c = 0x202F \<or> c = 0x205F \<or> c = 0x3000 \<or> c = 0xFEFF"

definition trim :: "jsstring \<Rightarrow> jsstring" where
  "trim s = rev (dropWhile is_ws (rev (dropWhile is_ws s)))"

text \<open>\<open>s.substring(0, n)\<close> for \<open>n \<ge> 0\<close>.\<close>

definition substring0 :: "jsstring \<Rightarrow> nat \<Rightarrow> jsstring" where
  "substring0 s n = take n s"

text \<open>A string is truthy exactly when it is not empty.\<close>

definition truthy :: "jsstring \<Rightarrow> bool" where
  "truthy s \<longleftrightarrow> s \<noteq> []"

text \<open>
  A thrown value: an \<open>Error\<close> object with its message. \<open>TypeError\<close> is what a method
  call on \<open>null\<close> or \<open>undefined\<close> throws, \<open>ReplyError\<close> an error reply of the Redis
  server, \<open>SyntaxError\<close> what \<open>JSON.parse\<close> throws, \<open>HttpError\<close> a failed request of
  the HTTP client.
\<close>

datatype error =
    Error jsstring
  | TypeError jsstring
  | ReplyError jsstring
  | SyntaxError jsstring
  | HttpError jsstring

fun error_message :: "error \<Rightarrow> jsstring" where
  "error_message (Error m) = m"
| "error_message (TypeError m) = m"
| "error_message (ReplyError m) = m"
| "error_message (SyntaxError m) = m"
| "error_message (HttpError m) = m"

section \<open>The session cache (services/redisService.js)\<close>

subsection \<open>The Redis store and the commands the service uses\<close>

text \<open>
  A key holds a list or a string, with an optional time to live in seconds. A key whose
  time to live runs out is removed by the server, so an expired key is an absent key.
\<close>

datatype redis_value = RList "jsstring list" | RString jsstring

record redis_entry =
  rvalue :: redis_value
  ttl :: "int option"

type_synonym redis_store = "jsstring \<Rightarrow> redis_entry option"

definition WRONGTYPE :: error where
  "WRONGTYPE = ReplyError (js ''WRONGTYPE Operation against a key holding the wrong kind of value'')"

text \<open>\<open>LPUSH key v\<close>: the new element becomes the head; an absent key starts a list.\<close>

definition lPush :: "jsstring \<Rightarrow> jsstring \<Rightarrow> redis_store \<Rightarrow> (error + nat) \<times> redis_store" where
  "lPush key v st =
     (case st key of
        None \<Rightarrow> (Inr 1, st(key \<mapsto> \<lparr>rvalue = RList [v], ttl = None\<rparr>))
      | Some e \<Rightarrow>
          (case rvalue e of
             RList xs \<Rightarrow> (Inr (Suc (length xs)), st(key \<mapsto> e\<lparr>rvalue := RList (v # xs)\<rparr>))
           | RString _ \<Rightarrow> (Inl WRONGTYPE, st)))"

text \<open>\<open>EXPIRE key secs\<close>: a time to live that is not positive deletes the key at once.\<close>

definition expire :: "jsstring \<Rightarrow> int \<Rightarrow> redis_store \<Rightarrow> bool \<times> redis_store" where
  "expire key secs st =
     (case st key of
        None \<Rightarrow> (False, st)
      | Some e \<Rightarrow>
          (True, if secs \<le> 0 then st(key := None) else st(key \<mapsto> e\<lparr>ttl := Some secs\<rparr>)))"

text \<open>\<open>SET key v EX secs\<close>: replaces whatever the key held; the server refuses a time to
  live that is not positive.\<close>

definition set_EX :: "jsstring \<Rightarrow> jsstring \<Rightarrow> int \<Rightarrow> redis_store \<Rightarrow> (error + unit) \<times> redis_store" where
  "set_EX key v secs st =
     (if secs \<le> 0 then (Inl (ReplyError (js ''ERR invalid expire time in 'set' command'')), st)
      else (Inr (), st(key \<mapsto> \<lparr>rvalue = RString v, ttl = Some secs\<rparr>)))"

text \<open>\<open>LRANGE key 0 -1\<close>: the whole list, head first; an absent key is the empty list.\<close>

definition lRange_all :: "jsstring \<Rightarrow> redis_store \<Rightarrow> error + jsstring list" where
  "lRange_all key st =
     (case st key of
        None \<Rightarrow> Inr []
      | Some e \<Rightarrow> (case rvalue e of RList xs \<Rightarrow> Inr xs | RString _ \<Rightarrow> Inl WRONGTYPE))"

text \<open>\<open>DEL keys\<close>: the number of keys removed.\<close>

definition del :: "jsstring list \<Rightarrow> redis_store \<Rightarrow> nat \<times> redis_store" where
  "del keys st =
     (length (filter (\<lambda>k. st k \<noteq> None) (remdups keys)), (\<lambda>k. if k \<in> set keys then None else st k))"

subsection \<open>RedisService\<close>

text \<open>
  \<open>client\<close> is \<open>None\<close> for \<open>this.client = null\<close>, the state the constructor leaves until
  \<open>connect()\<close> has run; otherwise it is the store the client talks to. The two lifetimes
  are \<open>parseInt(process.env...) || default\<close>: the default replaces \<open>NaN\<close> and \<open>0\<close>.
\<close>

record redis_service =
  client :: "redis_store option"
  sessionTTL :: int
  historyTTL :: int

definition or_default :: "int option \<Rightarrow> int \<Rightarrow> int" where
  "or_default parsed d = (case parsed of None \<Rightarrow> d | Some n \<Rightarrow> if n = 0 then d else n)"

definition RedisService_new :: "int option \<Rightarrow> int option \<Rightarrow> redis_service" where
  "RedisService_new env_session_ttl env_history_ttl =
     \<lparr>client = None,
      sessionTTL = or_default env_session_ttl 3600,
      historyTTL = or_default env_history_ttl 7200\<rparr>"

text \<open>\<open>connect()\<close> when the connection is made: the client now talks to the store.\<close>

definition connect :: "redis_store \<Rightarrow> redis_service \<Rightarrow> redis_service" where
  "connect st rs = rs\<lparr>client := Some st\<rparr>"

definition getSessionKey :: "jsstring \<Rightarrow> jsstring" where
  "getSessionKey sessionId = js ''session:'' @ sessionId"

definition getHistoryKey :: "jsstring \<Rightarrow> jsstring" where
  "getHistoryKey sessionId = js ''history:'' @ sessionId"

text \<open>What calling \<open>method\<close> on \<open>this.client\<close> throws while the client is \<open>null\<close>.\<close>

definition null_client :: "string \<Rightarrow> error" where
  "null_client method =
     TypeError (js ''Cannot read properties of null (reading '' @ [0x27] @ js method @ [0x27] @ js '')'')"

text \<open>
  \<open>addMessage(sessionId, messageData)\<close>: \<open>lPush\<close> of the JSON text, \<open>expire\<close> of the
  history key, \<open>set\<close> of the session key to the clock's reading. Whatever a command throws
  is logged and thrown again; the commands done before it stay done. \<open>JSON.stringify\<close>
  and the clock's reading are parameters.
\<close>

definition addMessage ::
  "('m \<Rightarrow> jsstring) \<Rightarrow> redis_service \<Rightarrow> jsstring \<Rightarrow> 'm \<Rightarrow> jsstring \<Rightarrow> (error + bool) \<times> redis_service" where
  "addMessage JSON_stringify rs sessionId messageData now =
     (case client rs of
        None \<Rightarrow> (Inl (null_client ''lPush''), rs)
      | Some st \<Rightarrow>
          (let historyKey = getHistoryKey sessionId;
               sessionKey = getSessionKey sessionId
           in case lPush historyKey (JSON_stringify messageData) st of
                (Inl e, st1) \<Rightarrow> (Inl e, rs\<lparr>client := Some st1\<rparr>)
              | (Inr _, st1) \<Rightarrow>
                  (let (_, st2) = expire historyKey (historyTTL rs) st1
                   in case set_EX sessionKey now (sessionTTL rs) st2 of
                        (Inl e, st3) \<Rightarrow> (Inl e, rs\<lparr>client := Some st3\<rparr>)
                      | (Inr _, st3) \<Rightarrow> (Inr True, rs\<lparr>client := Some st3\<rparr>))))"

text \<open>\<open>messages.map(msg => JSON.parse(msg))\<close>: the first text that does not parse throws.\<close>

fun parse_all :: "(jsstring \<Rightarrow> 'm option) \<Rightarrow> jsstring list \<Rightarrow> error + 'm list" where
  "parse_all JSON_parse [] = Inr []"
| "parse_all JSON_parse (x # xs) =
     (case JSON_parse x of
        None \<Rightarrow> Inl (SyntaxError (js ''Unexpected token in JSON''))
      | Some m \<Rightarrow> (case parse_all JSON_parse xs of Inl e \<Rightarrow> Inl e | Inr ms \<Rightarrow> Inr (m # ms)))"

text \<open>\<open>getHistory(sessionId)\<close>: the whole list, reversed, each element parsed.\<close>

definition getHistory ::
  "(jsstring \<Rightarrow> 'm option) \<Rightarrow> redis_service \<Rightarrow> jsstring \<Rightarrow> error + 'm list" where
  "getHistory JSON_parse rs sessionId =
     (case client rs of
        None \<Rightarrow> Inl (null_client ''lRange'')
      | Some st \<Rightarrow>
          (case lRange_all (getHistoryKey sessionId) st of
             Inl e \<Rightarrow> Inl e
           | Inr messages \<Rightarrow> parse_all JSON_parse (rev messages)))"

text \<open>\<open>clearSession(sessionId)\<close>: both keys are deleted.\<close>

definition clearSession :: "redis_service \<Rightarrow> jsstring \<Rightarrow> (error + bool) \<times> redis_service" where
  "clearSession rs sessionId =
     (case client rs of
        None \<Rightarrow> (Inl (null_client ''del''), rs)
      | Some st \<Rightarrow>
          (Inr True, rs\<lparr>client := Some (snd (del [getHistoryKey sessionId, getSessionKey sessionId] st))\<rparr>))"

text \<open>
  A caller that appends one message after the other, each with its session and the clock's
  reading, and stops at the first call that throws.
\<close>

fun addMessages ::
  "('m \<Rightarrow> jsstring) \<Rightarrow> redis_service \<Rightarrow> (jsstring \<times> 'm \<times> jsstring) list \<Rightarrow> (error + bool) \<times> redis_service" where
  "addMessages JSON_stringify rs [] = (Inr True, rs)"
| "addMessages JSON_stringify rs ((sessionId, messageData, now) # rest) =
     (case addMessage JSON_stringify rs sessionId messageData now of
        (Inl e, rs1) \<Rightarrow> (Inl e, rs1)
      | (Inr _, rs1) \<Rightarrow> addMessages JSON_stringify rs1 rest)"

text \<open>The messages of one session among the calls, in call order.\<close>

definition sent_to :: "jsstring \<Rightarrow> (jsstring \<times> 'm \<times> jsstring) list \<Rightarrow> 'm list" where
  "sent_to sessionId calls = map (\<lambda>c. fst (snd c)) (filter (\<lambda>c. fst c = sessionId) calls)"

text \<open>Every history key that is present holds a list: what the service's own writes keep true.\<close>

definition history_keys_hold_lists :: "redis_store \<Rightarrow> bool" where
  "history_keys_hold_lists st \<longleftrightarrow>
     (\<forall>sessionId. \<exists>xs. lRange_all (getHistoryKey sessionId) st = Inr xs)"

text \<open>\<open>EXISTS key\<close>: 1 or 0.\<close>

definition exists_cmd :: "jsstring \<Rightarrow> redis_store \<Rightarrow> nat" where
  "exists_cmd key st = (case st key of None \<Rightarrow> 0 | Some _ \<Rightarrow> 1)"

text \<open>
  \<open>sessionExists(sessionId)\<close>: whether the session record \<open>session:{id}\<close> is in the
  store; a throw is caught and answered \<open>false\<close>.
\<close>

definition sessionExists :: "redis_service \<Rightarrow> jsstring \<Rightarrow> bool" where
  "sessionExists rs sessionId =
     (case client rs of
        None \<Rightarrow> False
      | Some st \<Rightarrow> exists_cmd (getSessionKey sessionId) st = 1)"

text \<open>
  Time passing at the server: after \<open>secs\<close> seconds a key whose time to live was at most
  \<open>secs\<close> is gone, and the others have that much less to live. \<open>after_seconds\<close> is the
  service seen that much later.
\<close>

definition elapse :: "int \<Rightarrow> redis_store \<Rightarrow> redis_store" where
  "elapse secs st =
     (\<lambda>key. case st key of
              None \<Rightarrow> None
            | Some e \<Rightarrow>
                (case ttl e of
                   None \<Rightarrow> Some e
                 | Some t \<Rightarrow> if t \<le> secs then None else Some (e\<lparr>ttl := Some (t - secs)\<rparr>)))"

definition after_seconds :: "int \<Rightarrow> redis_service \<Rightarrow> redis_service" where
  "after_seconds secs rs = rs\<lparr>client := map_option (elapse secs) (client rs)\<rparr>"

text \<open>What the server does to a key whose time to live has run out.\<close>

definition ttl_runs_out :: "jsstring \<Rightarrow> redis_store \<Rightarrow> redis_store" where
  "ttl_runs_out key st = st(key := None)"

section \<open>Calls to the outside\<close>

text \<open>
  The requests a function sends and the pauses it makes, in order. Every function that
  talks to an outside service returns this log next to its result, so that "no call was
  made" and "one creation call was made" are statements about a value.
\<close>

datatype 'v call =
    JinaPost "jsstring list"
  | GeminiPost jsstring
  | QdrantGetCollections
  | QdrantCreateCollection jsstring nat jsstring
  | QdrantSearch jsstring 'v nat real
  | RedisAddMessage jsstring
  | FeedRequest jsstring
  | Sleep nat

section \<open>The embedding client (EmbeddingService)\<close>

text \<open>
  What \<open>axios.post\<close> to the embeddings endpoint comes back with: a rejection with its
  message, or a response. \<open>EmbedData None\<close> is a response without \<open>data.data\<close>;
  \<open>EmbedData (Some es)\<close> carries the \<open>embedding\<close> of each item of \<open>data.data\<close>. The
  type \<open>'v\<close> of an embedding is left open.
\<close>

datatype 'v embed_reply = EmbedRejected jsstring | EmbedData "'v list option"

text \<open>The filter of \<open>embedBatch\<close>: \<open>text && text.trim().length > 0\<close>.\<close>

definition valid_text :: "jsstring \<Rightarrow> bool" where
  "valid_text text \<longleftrightarrow> truthy text \<and> length (trim text) > 0"

text \<open>The \<open>catch\<close> of \<open>embedText\<close> and of \<open>embedBatch\<close>: a new \<open>Error\<close> around the message.\<close>

definition embedding_failed :: "error \<Rightarrow> error" where
  "embedding_failed e = Error (js ''Failed to generate embedding: '' @ error_message e)"

definition batch_embeddings_failed :: "error \<Rightarrow> error" where
  "batch_embeddings_failed e = Error (js ''Failed to generate batch embeddings: '' @ error_message e)"

definition invalid_jina_response :: error where
  "invalid_jina_response = Error (js ''Invalid response format from Jina API'')"

definition embedText ::
  "(jsstring list \<Rightarrow> 'v embed_reply) \<Rightarrow> jsstring \<Rightarrow> (error + 'v) \<times> 'v call list" where
  "embedText jina text =
     (if \<not> truthy text \<or> length (trim text) = 0
      then (Inl (embedding_failed (Error (js ''Text cannot be empty''))), [])
      else
        (case jina [trim text] of
           EmbedRejected msg \<Rightarrow> (Inl (embedding_failed (HttpError msg)), [JinaPost [trim text]])
         | EmbedData None \<Rightarrow> (Inl (embedding_failed invalid_jina_response), [JinaPost [trim text]])
         | EmbedData (Some []) \<Rightarrow> (Inl (embedding_failed invalid_jina_response), [JinaPost [trim text]])
         | EmbedData (Some (e # _)) \<Rightarrow> (Inr e, [JinaPost [trim text]])))"

text \<open>
  \<open>embedBatch(texts)\<close> for an array \<open>texts\<close> of strings: of the test
  \<open>!texts || texts.length === 0\<close> an array can only meet the second half. A throw inside
  the \<open>try\<close>, the two explicit ones included, is caught and thrown again wrapped; the log
  shows whether the request was sent before it.
\<close>

definition embedBatch ::
  "(jsstring list \<Rightarrow> 'v embed_reply) \<Rightarrow> jsstring list \<Rightarrow> (error + 'v list) \<times> 'v call list" where
  "embedBatch jina texts =
     (if length texts = 0
      then (Inl (batch_embeddings_failed (Error (js ''Texts array cannot be empty''))), [])
      else
        (let validTexts = filter valid_text texts
         in if length validTexts = 0
            then (Inl (batch_embeddings_failed (Error (js ''No valid texts to embed''))), [])
            else
              (case jina validTexts of
                 EmbedRejected msg \<Rightarrow> (Inl (batch_embeddings_failed (HttpError msg)), [JinaPost validTexts])
               | EmbedData None \<Rightarrow> (Inl (batch_embeddings_failed invalid_jina_response), [JinaPost validTexts])
               | EmbedData (Some es) \<Rightarrow> (Inr es, [JinaPost validTexts]))))"

text \<open>The spec's words for the entries the filter drops: empty, or white space only.\<close>

definition whitespace_only :: "jsstring \<Rightarrow> bool" where
  "whitespace_only text \<longleftrightarrow> list_all is_ws text"

section \<open>The generation client (services/geminiService.js)\<close>

text \<open>
  What \<open>axios.post\<close> to the generation endpoint comes back with: a rejection, or a
  response, of which the service reads
  \<open>response.data?.candidates?.[0]?.content?.parts?.[0]?.text\<close>: \<open>None\<close> when a link of that
  chain is missing (a response of another shape, or one the safety filter blocked, which
  has no candidate text).
\<close>

datatype gemini_reply = GeminiRejected jsstring | GeminiText "jsstring option"

definition buildRAGPrompt :: "jsstring \<Rightarrow> jsstring \<Rightarrow> jsstring" where
  "buildRAGPrompt userQuery context =
     js ''You are a helpful news chatbot assistant. Answer the user's question based on the provided news context. If the context doesn't contain relevant information, politely say so and provide a general response if possible.\<newline>\<newline>Context from recent news articles:\<newline>''
     @ context
     @ js ''\<newline>\<newline>User Question: ''
     @ userQuery
     @ js ''\<newline>\<newline>Instructions:\<newline>- Base your answer primarily on the provided context\<newline>- Be concise and informative\<newline>- If the context doesn't contain relevant information, acknowledge this\<newline>- Maintain a friendly and professional tone\<newline>- Cite specific details from the articles when relevant\<newline>\<newline>Response:''"

definition fallback_response :: jsstring where
  "fallback_response =
     js ''I apologize, but I'm having trouble processing your request right now. Please try again or rephrase your question.''"

text \<open>The \<open>try\<close> block of \<open>generateResponse\<close>: the trimmed text, or a throw.\<close>

definition generate_try :: "(jsstring \<Rightarrow> gemini_reply) \<Rightarrow> jsstring \<Rightarrow> error + jsstring" where
  "generate_try gemini prompt =
     (case gemini prompt of
        GeminiRejected msg \<Rightarrow> Inl (HttpError msg)
      | GeminiText None \<Rightarrow> Inl (Error (js ''Invalid response format from Gemini API''))
      | GeminiText (Some text) \<Rightarrow>
          if truthy text then Inr (trim text)
          else Inl (Error (js ''Invalid response format from Gemini API'')))"

text \<open>\<open>generateResponse(userQuery, context)\<close>: the \<open>catch\<close> returns the fallback text.\<close>

definition generateResponse ::
  "(jsstring \<Rightarrow> gemini_reply) \<Rightarrow> jsstring \<Rightarrow> jsstring \<Rightarrow> jsstring \<times> 'v call list" where
  "generateResponse gemini userQuery context =
     (let prompt = buildRAGPrompt userQuery context
      in (case generate_try gemini prompt of
            Inl e \<Rightarrow> fallback_response
          | Inr text \<Rightarrow> text,
          [GeminiPost prompt]))"

text \<open>The generation call fails: the request is rejected, or the response carries no text.\<close>

definition generation_fails :: "gemini_reply \<Rightarrow> bool" where
  "generation_fails reply =
     (case reply of
        GeminiRejected _ \<Rightarrow> True
      | GeminiText None \<Rightarrow> True
      | GeminiText (Some text) \<Rightarrow> text = [])"

section \<open>The vector store client (QdrantService)\<close>

text \<open>
  Of the vector database the model keeps the collections it holds. \<open>getCollections\<close>
  lists them; \<open>createCollection\<close> adds one and refuses a name that is taken.
\<close>

record collection_info =
  col_name :: jsstring
  col_size :: nat
  col_distance :: jsstring

type_synonym qdrant_store = "collection_info list"

definition getCollections :: "qdrant_store \<Rightarrow> collection_info list" where
  "getCollections st = st"

definition createCollection ::
  "jsstring \<Rightarrow> nat \<Rightarrow> jsstring \<Rightarrow> qdrant_store \<Rightarrow> (error + bool) \<times> qdrant_store" where
  "createCollection name vsize distance st =
     (if list_ex (\<lambda>col. col_name col = name) st
      then (Inl (HttpError (js ''Conflict'')), st)
      else (Inr True, st @ [\<lparr>col_name = name, col_size = vsize, col_distance = distance\<rparr>]))"

record qdrant_service =
  qclient :: "qdrant_store option"
  collectionName :: jsstring
  vectorSize :: nat

definition QdrantService_new :: qdrant_service where
  "QdrantService_new = \<lparr>qclient = None, collectionName = js ''news_articles'', vectorSize = 768\<rparr>"

text \<open>\<open>ensureCollection()\<close>: the collection is created when no listed collection has its name.\<close>

definition ensureCollection :: "qdrant_service \<Rightarrow> (error + unit) \<times> qdrant_service \<times> 'v call list" where
  "ensureCollection qs =
     (case qclient qs of
        None \<Rightarrow> (Inl (null_client ''getCollections''), qs, [])
      | Some st \<Rightarrow>
          (let collections = getCollections st;
               collectionExists = list_ex (\<lambda>col. col_name col = collectionName qs) collections
           in if \<not> collectionExists
              then
                (case createCollection (collectionName qs) (vectorSize qs) (js ''Cosine'') st of
                   (Inl e, st1) \<Rightarrow>
                     (Inl e, qs\<lparr>qclient := Some st1\<rparr>,
                      [QdrantGetCollections,
                       QdrantCreateCollection (collectionName qs) (vectorSize qs) (js ''Cosine'')])
                 | (Inr _, st1) \<Rightarrow>
                     (Inr (), qs\<lparr>qclient := Some st1\<rparr>,
                      [QdrantGetCollections,
                       QdrantCreateCollection (collectionName qs) (vectorSize qs) (js ''Cosine'')]))
              else (Inr (), qs, [QdrantGetCollections])))"

text \<open>\<open>initialize()\<close>: a client for the database, then \<open>ensureCollection\<close>.\<close>

definition initialize :: "qdrant_store \<Rightarrow> qdrant_service \<Rightarrow> (error + unit) \<times> qdrant_service \<times> 'v call list" where
  "initialize st qs = ensureCollection (qs\<lparr>qclient := Some st\<rparr>)"

text \<open>The creation calls of a log.\<close>

fun is_creation :: "'v call \<Rightarrow> bool" where
  "is_creation (QdrantCreateCollection _ _ _) = True"
| "is_creation _ = False"

definition creation_calls :: "'v call list \<Rightarrow> nat" where
  "creation_calls calls = length (filter is_creation calls)"

text \<open>
  A search hit, of which the chat endpoint reads \<open>payload.content\<close> (\<open>None\<close>: the payload
  has no such field). What the database answers to a search is a parameter:
  \<open>search_api collection vector limit score_threshold\<close>.
\<close>

record search_hit =
  hit_id :: int
  hit_score :: real
  hit_content :: "jsstring option"

definition search ::
  "(jsstring \<Rightarrow> 'v \<Rightarrow> nat \<Rightarrow> real \<Rightarrow> error + search_hit list) \<Rightarrow> qdrant_service \<Rightarrow> 'v \<Rightarrow> nat \<Rightarrow> real \<Rightarrow>
   (error + search_hit list) \<times> 'v call list" where
  "search search_api qs queryVector topK threshold =
     (case qclient qs of
        None \<Rightarrow> (Inl (null_client ''search''), [])
      | Some _ \<Rightarrow>
          (search_api (collectionName qs) queryVector topK threshold,
           [QdrantSearch (collectionName qs) queryVector topK threshold]))"

section \<open>The chat endpoint (POST /api/chat)\<close>

record chat_request =
  req_sessionId :: "jsstring option"
  req_message :: "jsstring option"

record chat_message =
  user :: jsstring
  bot :: jsstring
  timestamp :: jsstring

datatype reply_body = ChatReply jsstring jsstring | ErrorReply jsstring

record http_response =
  status :: nat
  body :: reply_body

text \<open>
  The services outside the process, as the endpoint sees them, and the clock:
  \<open>clock n\<close> is the \<open>n\<close>-th reading of \<open>new Date().toISOString()\<close> during the request.
\<close>

record 'v outside =
  jina_api :: "jsstring list \<Rightarrow> 'v embed_reply"
  qdrant_search_api :: "jsstring \<Rightarrow> 'v \<Rightarrow> nat \<Rightarrow> real \<Rightarrow> error + search_hit list"
  gemini_api :: "jsstring \<Rightarrow> gemini_reply"
  clock :: "nat \<Rightarrow> jsstring"

text \<open>A field of the request body is falsy when it is missing or the empty string.\<close>

definition falsy :: "jsstring option \<Rightarrow> bool" where
  "falsy field = (case field of None \<Rightarrow> True | Some s \<Rightarrow> \<not> truthy s)"

text \<open>\<open>Array.prototype.join\<close>; an \<open>undefined\<close> element joins as the empty string.\<close>

fun join :: "jsstring \<Rightarrow> jsstring list \<Rightarrow> jsstring" where
  "join sep [] = []"
| "join sep [x] = x"
| "join sep (x # y # ys) = x @ sep @ join sep (y # ys)"

definition or_empty :: "jsstring option \<Rightarrow> jsstring" where
  "or_empty field = (case field of None \<Rightarrow> [] | Some s \<Rightarrow> s)"

definition bad_request :: http_response where
  "bad_request = \<lparr>status = 400, body = ErrorReply (js ''Session ID and message are required'')\<rparr>"

definition server_error :: http_response where
  "server_error = \<lparr>status = 500, body = ErrorReply (js ''Failed to process message'')\<rparr>"

text \<open>
  The handler: the response, the cache service after the request, and the calls made.
  A throw of the embedding, the search or the cache write ends in the \<open>catch\<close>: status 500.
\<close>

definition post_api_chat ::
  "'v outside \<Rightarrow> (chat_message \<Rightarrow> jsstring) \<Rightarrow> redis_service \<Rightarrow> qdrant_service \<Rightarrow> chat_request \<Rightarrow>
   http_response \<times> redis_service \<times> 'v call list" where
  "post_api_chat out JSON_stringify rs qs req =
     (if falsy (req_sessionId req) \<or> falsy (req_message req) then (bad_request, rs, [])
      else
        (let sessionId = or_empty (req_sessionId req);
             message = or_empty (req_message req)
         in case embedText (jina_api out) message of
              (Inl e, log1) \<Rightarrow> (server_error, rs, log1)
            | (Inr queryEmbedding, log1) \<Rightarrow>
                (case search (qdrant_search_api out) qs queryEmbedding 5 0.7 of
                   (Inl e, log2) \<Rightarrow> (server_error, rs, log1 @ log2)
                 | (Inr relevantDocs, log2) \<Rightarrow>
                     (let context = join (js ''\<newline>\<newline>'') (map (\<lambda>doc. or_empty (hit_content doc)) relevantDocs);
                          (response, log3) = generateResponse (gemini_api out) message context;
                          messageData = \<lparr>user = message, bot = response, timestamp = clock out 0\<rparr>;
                          calls = log1 @ log2 @ log3 @ [RedisAddMessage sessionId]
                      in case addMessage JSON_stringify rs sessionId messageData (clock out 1) of
                           (Inl e, rs1) \<Rightarrow> (server_error, rs1, calls)
                         | (Inr _, rs1) \<Rightarrow>
                             (\<lparr>status = 200, body = ChatReply response sessionId\<rparr>, rs1, calls)))))"

section \<open>The ingestion script (scripts/ingestNews.js)\<close>

subsection \<open>Feed items and articles\<close>

text \<open>
  An item as the feed parser delivers it: each field is a string or missing. \<open>a || b\<close> on
  such fields takes \<open>b\<close> when \<open>a\<close> is missing or empty.
\<close>

record feed_item =
  item_title :: "jsstring option"
  item_description :: "jsstring option"
  item_summary :: "jsstring option"
  item_content_encoded :: "jsstring option"
  item_content :: "jsstring option"
  item_link :: "jsstring option"
  item_pubDate :: "jsstring option"
  item_isoDate :: "jsstring option"

record article =
  article_id :: nat
  article_title :: jsstring
  article_description :: jsstring
  article_content :: jsstring
  article_link :: jsstring
  article_pubDate :: jsstring
  article_source :: jsstring

definition or_else :: "jsstring option \<Rightarrow> jsstring option \<Rightarrow> jsstring option" where
  "or_else a b = (if falsy a then b else a)"

definition or_string :: "jsstring option \<Rightarrow> jsstring \<Rightarrow> jsstring" where
  "or_string a d = (if falsy a then d else or_empty a)"

text \<open>\<open>xs[i]\<close>: \<open>undefined\<close> when \<open>i\<close> is out of range.\<close>

definition nth_opt :: "'a list \<Rightarrow> nat \<Rightarrow> 'a option" where
  "nth_opt xs i = (if i < length xs then Some (xs ! i) else None)"

text \<open>
  The state of a \<open>NewsIngestion\<close> object that the script changes or reads: the counter
  that numbers the articles, and the feeds.
\<close>

record news_ingestion =
  articleCounter :: nat
  feeds :: "jsstring list"

definition NewsIngestion_new :: news_ingestion where
  "NewsIngestion_new =
     \<lparr>articleCounter = 1,
      feeds =
        [js ''https://feeds.bbci.co.uk/news/rss.xml'',
         js ''https://rss.cnn.com/rss/cnn_topstories.rss'',
         js ''https://feeds.npr.org/1001/rss.xml'',
         js ''https://rss.cnn.com/rss/cnn_world.rss'',
         js ''https://feeds.bbci.co.uk/news/business/rss.xml'']\<rparr>"

subsection \<open>fetchFeed\<close>

text \<open>
  What \<open>parser.parseURL(feedUrl)\<close> comes back with on a given attempt: a rejection (time
  out, bad status, bad XML), or a feed with its items (\<open>None\<close>: the feed has no \<open>items\<close>).
\<close>

datatype parse_reply = ParseFailed jsstring | Parsed "feed_item list option"

text \<open>The \<open>for\<close> loop of \<open>fetchFeed\<close>, entered at \<open>attempt\<close>.\<close>

function fetchFeed_from ::
  "(jsstring \<Rightarrow> nat \<Rightarrow> parse_reply) \<Rightarrow> jsstring \<Rightarrow> nat \<Rightarrow> nat \<Rightarrow> feed_item list \<times> 'v call list" where
  "fetchFeed_from parseURL feedUrl retries attempt =
     (if attempt \<le> retries then
        (case parseURL feedUrl attempt of
           Parsed items \<Rightarrow> (case items of None \<Rightarrow> [] | Some xs \<Rightarrow> xs, [FeedRequest feedUrl])
         | ParseFailed msg \<Rightarrow>
             if attempt = retries then ([], [FeedRequest feedUrl])
             else
               (let (items, calls) = fetchFeed_from parseURL feedUrl retries (attempt + 1)
                in (items, FeedRequest feedUrl # Sleep (2000 * attempt) # calls)))
      else ([], []))"
  by pat_completeness auto
termination
  by (relation "measure (\<lambda>(parseURL, feedUrl, retries, attempt). retries + 1 - attempt)") auto

declare fetchFeed_from.simps [simp del]

text \<open>\<open>fetchFeed(feedUrl, retries = 2)\<close>.\<close>

definition fetchFeed ::
  "(jsstring \<Rightarrow> nat \<Rightarrow> parse_reply) \<Rightarrow> jsstring \<Rightarrow> nat \<Rightarrow> feed_item list \<times> 'v call list" where
  "fetchFeed parseURL feedUrl retries = fetchFeed_from parseURL feedUrl retries 1"

fun is_feed_request :: "'v call \<Rightarrow> bool" where
  "is_feed_request (FeedRequest _) = True"
| "is_feed_request _ = False"

subsection \<open>cleanHtmlContent and processArticle\<close>

text \<open>\<open>s.replace(/c+/g, ' ')\<close> for a class \<open>c\<close> of code units: every maximal run becomes one space.\<close>

function replace_runs :: "(16 word \<Rightarrow> bool) \<Rightarrow> jsstring \<Rightarrow> jsstring" where
  "replace_runs p [] = []"
| "replace_runs p (c # cs) =
     (if p c then 0x20 # replace_runs p (dropWhile p cs) else c # replace_runs p cs)"
  by pat_completeness auto
termination
  by (relation "measure (\<lambda>(p, s). length s)") (auto simp: length_dropWhile_le less_Suc_eq_le)

text \<open>
  \<open>cleanHtmlContent(html)\<close>. The text of the parsed document without its script, style,
  nav, footer, header and advertisement elements is the work of the HTML library, a
  parameter here: \<open>cheerio_text\<close>.
\<close>

definition cleanHtmlContent :: "(jsstring \<Rightarrow> jsstring) \<Rightarrow> jsstring \<Rightarrow> jsstring" where
  "cleanHtmlContent cheerio_text html =
     (if \<not> truthy html then []
      else trim (replace_runs (\<lambda>c. c = 0xA) (replace_runs is_ws (cheerio_text html))))"

text \<open>
  \<open>processArticle(item, feedIndex)\<close>: the article and the object with its counter moved
  on. \<open>now\<close> is the clock's reading, used when the item has no date.
\<close>

definition processArticle ::
  "(jsstring \<Rightarrow> jsstring) \<Rightarrow> jsstring \<Rightarrow> news_ingestion \<Rightarrow> feed_item \<Rightarrow> nat \<Rightarrow> article \<times> news_ingestion" where
  "processArticle cheerio_text now ni item feedIndex =
     (let title = or_string (item_title item) [];
          description = or_string (or_else (item_description item) (item_summary item)) [];
          content = or_string (or_else (item_content_encoded item) (item_content item)) [];
          link = or_string (item_link item) [];
          pubDate = or_string (or_else (item_pubDate item) (item_isoDate item)) now;
          cleanDescription = cleanHtmlContent cheerio_text description;
          cleanContent = cleanHtmlContent cheerio_text content;
          combinedText1 =
            (if truthy cleanDescription then title @ js ''\<newline>\<newline>'' @ cleanDescription else title);
          combinedText2 =
            (if truthy cleanContent \<and> cleanContent \<noteq> cleanDescription
             then combinedText1 @ js ''\<newline>\<newline>'' @ cleanContent else combinedText1);
          combinedText =
            (if length combinedText2 > 8000 then substring0 combinedText2 8000 @ js ''...''
             else combinedText2)
      in (\<lparr>article_id = articleCounter ni,
           article_title = title,
           article_description = cleanDescription,
           article_content = combinedText,
           article_link = link,
           article_pubDate = pubDate,
           article_source = or_string (nth_opt (feeds ni) feedIndex) (js ''unknown'')\<rparr>,
          ni\<lparr>articleCounter := articleCounter ni + 1\<rparr>))"

subsection \<open>fetchAllArticles\<close>

text \<open>\<open>items.map(item => this.processArticle(item, i))\<close>: the counter runs through the items.\<close>

fun map_processArticle ::
  "(jsstring \<Rightarrow> jsstring) \<Rightarrow> jsstring \<Rightarrow> news_ingestion \<Rightarrow> feed_item list \<Rightarrow> nat \<Rightarrow> article list \<times> news_ingestion" where
  "map_processArticle cheerio_text now ni [] i = ([], ni)"
| "map_processArticle cheerio_text now ni (item # items) i =
     (let (a, ni1) = processArticle cheerio_text now ni item i;
          (as, ni2) = map_processArticle cheerio_text now ni1 items i
      in (a # as, ni2))"

type_synonym 'v fetched = "article list \<times> news_ingestion \<times> 'v call list"

text \<open>
  What the loop body takes from feed \<open>i\<close>: the processed first ten items of what
  \<open>fetchFeed\<close> returns, and the pause of one second that ends the body.
\<close>

definition feed_articles ::
  "(jsstring \<Rightarrow> nat \<Rightarrow> parse_reply) \<Rightarrow> (jsstring \<Rightarrow> jsstring) \<Rightarrow> jsstring \<Rightarrow> news_ingestion \<Rightarrow> nat \<Rightarrow>
   article list \<times> news_ingestion \<times> 'v call list" where
  "feed_articles parseURL cheerio_text now ni i =
     (let feedUrl = feeds ni ! i;
          (items, calls) = fetchFeed parseURL feedUrl 2
      in if length items > 0
         then
           (let (processedItems, ni1) = map_processArticle cheerio_text now ni (take 10 items) i
            in (processedItems, ni1, calls @ [Sleep 1000]))
         else ([], ni, calls @ [Sleep 1000]))"

text \<open>The loop body: \<open>allArticles.push(...processedItems)\<close>.\<close>

definition feed_step ::
  "(jsstring \<Rightarrow> nat \<Rightarrow> parse_reply) \<Rightarrow> (jsstring \<Rightarrow> jsstring) \<Rightarrow> jsstring \<Rightarrow> nat \<Rightarrow>
   news_ingestion \<times> article list \<times> 'v call list \<Rightarrow> news_ingestion \<times> article list \<times> 'v call list" where
  "feed_step parseURL cheerio_text now i s =
     (case s of (ni, allArticles, calls) \<Rightarrow>
        (case feed_articles parseURL cheerio_text now ni i of
           (processedItems, ni1, calls1) \<Rightarrow> (ni1, allArticles @ processedItems, calls @ calls1)))"

text \<open>
  \<open>fetchAllArticles()\<close>: the loop over the feed indices \<open>0, ..., feeds.length - 1\<close>, then
  the first fifty of what it collected.
\<close>

definition fetchAllArticles ::
  "(jsstring \<Rightarrow> nat \<Rightarrow> parse_reply) \<Rightarrow> (jsstring \<Rightarrow> jsstring) \<Rightarrow> jsstring \<Rightarrow> news_ingestion \<Rightarrow>
   article list \<times> news_ingestion \<times> 'v call list" where
  "fetchAllArticles parseURL cheerio_text now ni =
     (case fold (feed_step parseURL cheerio_text now) [0..<length (feeds ni)] (ni, [], []) of
        (ni1, allArticles, calls) \<Rightarrow> (take 50 allArticles, ni1, calls))"

subsection \<open>ingestArticles: embeddings in batches\<close>

record payload =
  payload_title :: jsstring
  payload_description :: jsstring
  payload_content :: jsstring
  payload_link :: jsstring
  payload_pubDate :: jsstring
  payload_source :: jsstring
  payload_ingested_at :: jsstring

text \<open>An Indexed Document; \<open>doc_vector\<close> is \<open>None\<close> when \<open>embeddings[j]\<close> is \<open>undefined\<close>.\<close>

record 'v document =
  doc_id :: nat
  doc_vector :: "'v option"
  doc_payload :: payload

definition document_of :: "jsstring \<Rightarrow> article \<Rightarrow> 'v option \<Rightarrow> 'v document" where
  "document_of now a embedding =
     \<lparr>doc_id = article_id a,
      doc_vector = embedding,
      doc_payload =
        \<lparr>payload_title = article_title a,
         payload_description = article_description a,
         payload_content = substring0 (article_content a) 1000,
         payload_link = article_link a,
         payload_pubDate = article_pubDate a,
         payload_source = article_source a,
         payload_ingested_at = now\<rparr>\<rparr>"

text \<open>The inner loop: \<open>batch[j]\<close> is paired with \<open>embeddings[j]\<close> for \<open>j = 0, ..., batch.length - 1\<close>.\<close>

definition batch_documents :: "jsstring \<Rightarrow> article list \<Rightarrow> 'v list \<Rightarrow> 'v document list" where
  "batch_documents now batch embeddings =
     map (\<lambda>j. document_of now (batch ! j) (nth_opt embeddings j)) [0..<length batch]"

text \<open>The \<open>try\<close> block of one batch: its documents, or what \<open>embedBatch\<close> threw.\<close>

definition ingest_batch ::
  "(jsstring list \<Rightarrow> 'v embed_reply) \<Rightarrow> jsstring \<Rightarrow> article list \<Rightarrow> (error + 'v document list) \<times> 'v call list" where
  "ingest_batch jina now batch =
     (let texts = map article_content batch
      in case embedBatch jina texts of
           (Inl e, calls) \<Rightarrow> (Inl e, calls)
         | (Inr embeddings, calls) \<Rightarrow> (Inr (batch_documents now batch embeddings), calls))"

text \<open>
  The loop over the batches of ten, entered at index \<open>i\<close>: a batch that fails is skipped
  (\<open>continue\<close>, without the pause), the others add their documents and pause two seconds.
\<close>

function embed_batches ::
  "(jsstring list \<Rightarrow> 'v embed_reply) \<Rightarrow> jsstring \<Rightarrow> article list \<Rightarrow> nat \<Rightarrow> 'v document list \<Rightarrow> 'v call list \<Rightarrow>
   'v document list \<times> 'v call list" where
  "embed_batches jina now articles i documents calls =
     (if i < length articles then
        (let batch = take 10 (drop i articles)
         in case ingest_batch jina now batch of
              (Inl e, calls1) \<Rightarrow> embed_batches jina now articles (i + 10) documents (calls @ calls1)
            | (Inr docs, calls1) \<Rightarrow>
                embed_batches jina now articles (i + 10) (documents @ docs) (calls @ calls1 @ [Sleep 2000]))
      else (documents, calls))"
  by pat_completeness auto
termination
  by (relation "measure (\<lambda>(jina, now, articles, i, documents, calls). length articles - i)") auto

declare embed_batches.simps [simp del]

section \<open>Worked examples\<close>

text \<open>The concrete inputs at which the theorems below are instantiated.\<close>

text \<open>
  A serialiser that can be inverted, standing in for \<open>JSON.stringify\<close> and
  \<open>JSON.parse\<close> on messages: the lengths of \<open>user\<close> and \<open>bot\<close> in unary, then the
  three fields.
\<close>

definition example_stringify :: "chat_message \<Rightarrow> jsstring" where
  "example_stringify m =
     replicate (length (user m)) 1 @ [0] @ replicate (length (bot m)) 1 @ [0] @
     user m @ bot m @ timestamp m"

definition example_parse :: "jsstring \<Rightarrow> chat_message option" where
  "example_parse s =
     (let n1 = length (takeWhile (\<lambda>c. c = 1) s);
          r1 = drop (Suc n1) s;
          n2 = length (takeWhile (\<lambda>c. c = 1) r1);
          r2 = drop (Suc n2) r1
      in Some \<lparr>user = take n1 r2, bot = take n2 (drop n1 r2), timestamp = drop (n1 + n2) r2\<rparr>)"

text \<open>
  An outside in which the embedding and the search answer and the generation request is
  rejected; embeddings are numbers here.
\<close>

definition example_hit :: search_hit where
  "example_hit =
     \<lparr>hit_id = 1, hit_score = 0.9,
      hit_content = Some (js ''Market rally continues amid rate cut hopes'')\<rparr>"

definition example_outside :: "nat outside" where
  "example_outside =
     \<lparr>jina_api = (\<lambda>texts. EmbedData (Some (map length texts))),
      qdrant_search_api = (\<lambda>collection vector limit threshold. Inr [example_hit]),
      gemini_api = (\<lambda>prompt. GeminiRejected (js ''timeout of 10000ms exceeded'')),
      clock = (\<lambda>n. js ''2024-01-01T00:00:00.000Z'')\<rparr>"

definition example_redis :: redis_service where
  "example_redis = connect Map.empty (RedisService_new None None)"

definition example_qdrant :: qdrant_service where
  "example_qdrant = QdrantService_new\<lparr>qclient := Some []\<rparr>"

definition example_request :: chat_request where
  "example_request = \<lparr>req_sessionId = Some (js ''s1''), req_message = Some (js ''rates?'')\<rparr>"

definition empty_message_request :: chat_request where
  "empty_message_request = \<lparr>req_sessionId = Some (js ''s1''), req_message = Some []\<rparr>"

text \<open>Three feeds, of which the second fails on every attempt and the others have one item.\<close>

definition titled :: "jsstring \<Rightarrow> feed_item" where
  "titled t =
     \<lparr>item_title = Some t, item_description = None, item_summary = None,
      item_content_encoded = None, item_content = None, item_link = None,
      item_pubDate = None, item_isoDate = None\<rparr>"

definition example_parseURL :: "jsstring \<Rightarrow> nat \<Rightarrow> parse_reply" where
  "example_parseURL feedUrl attempt =
     (if feedUrl = js ''b'' then ParseFailed (js ''Request timed out after 10000ms'')
      else Parsed (Some [titled feedUrl]))"

definition three_feeds :: news_ingestion where
  "three_feeds = \<lparr>articleCounter = 1, feeds = [js ''a'', js ''b'', js ''c'']\<rparr>"

text \<open>An item whose title has 8001 code units, and nothing else.\<close>

definition long_title_item :: feed_item where
  "long_title_item = titled (replicate 8001 0x61)"

text \<open>Two articles, the first with empty content, and a batch of articles with content.\<close>

definition article_with :: "nat \<Rightarrow> jsstring \<Rightarrow> article" where
  "article_with n text =
     \<lparr>article_id = n, article_title = text, article_description = [], article_content = text,
      article_link = [], article_pubDate = [], article_source = js ''unknown''\<rparr>"

text \<open>An item with a one-letter title and 9000 code units of plain text as encoded content.\<close>

definition long_content_item :: feed_item where
  "long_content_item = (titled (js ''T''))\<lparr>item_content_encoded := Some (replicate 9000 0x61)\<rparr>"

text \<open>The example cache after one message of session \<open>s1\<close>, with the default lifetimes.\<close>

definition one_message_redis :: redis_service where
  "one_message_redis =
     snd (addMessage (\<lambda>m. m) example_redis (js ''s1'') (js ''hello'') (js ''2024-01-01T00:00:00.000Z''))"

section \<open>Properties of the session cache\<close>

subsection \<open>Keys\<close>

lemma getHistoryKey_inj: "getHistoryKey a = getHistoryKey b \<longleftrightarrow> a = b"
  by (simp add: getHistoryKey_def)

lemma session_key_not_history_key: "getSessionKey a \<noteq> getHistoryKey b"
  by (simp add: getSessionKey_def getHistoryKey_def js_def)

subsection \<open>One append\<close>

lemma lPush_list:
  assumes "lRange_all key st = Inr xs"
  shows "\<exists>n st1. lPush key v st = (Inr n, st1) \<and> st1 key \<noteq> None \<and>
           lRange_all key st1 = Inr (v # xs) \<and> (\<forall>k. k \<noteq> key \<longrightarrow> st1 k = st k)"
proof (cases "st key")
  case None
  with assms show ?thesis by (simp add: lPush_def lRange_all_def)
next
  case (Some e)
  with assms show ?thesis
    by (cases "rvalue e") (simp_all add: lPush_def lRange_all_def)
qed

lemma expire_positive:
  assumes "0 < secs"
  shows "lRange_all k (snd (expire key secs st)) = lRange_all k st"
  using assms by (cases "st key") (simp_all add: expire_def lRange_all_def)

lemma set_EX_positive:
  assumes "0 < secs"
  shows "set_EX key v secs st = (Inr (), st(key \<mapsto> \<lparr>rvalue = RString v, ttl = Some secs\<rparr>))"
  using assms by (simp add: set_EX_def)

lemma addMessage_step:
  assumes c: "client rs = Some st" and s: "0 < sessionTTL rs" and h: "0 < historyTTL rs"
    and l: "lRange_all (getHistoryKey sid) st = Inr xs"
  shows "\<exists>st'. addMessage S rs sid m now = (Inr True, rs\<lparr>client := Some st'\<rparr>) \<and>
           (\<forall>s. lRange_all (getHistoryKey s) st' =
                  (if s = sid then Inr (S m # xs) else lRange_all (getHistoryKey s) st))"
proof -
  obtain n st1 where p: "lPush (getHistoryKey sid) (S m) st = (Inr n, st1)"
    and p1: "lRange_all (getHistoryKey sid) st1 = Inr (S m # xs)"
    and p2: "\<forall>k. k \<noteq> getHistoryKey sid \<longrightarrow> st1 k = st k"
    using lPush_list [OF l] by blast
  define st2 where "st2 = snd (expire (getHistoryKey sid) (historyTTL rs) st1)"
  define st3 where "st3 = st2(getSessionKey sid \<mapsto> \<lparr>rvalue = RString now, ttl = Some (sessionTTL rs)\<rparr>)"
  have e: "expire (getHistoryKey sid) (historyTTL rs) st1 = (fst (expire (getHistoryKey sid) (historyTTL rs) st1), st2)"
    by (simp add: st2_def)
  have a: "addMessage S rs sid m now = (Inr True, rs\<lparr>client := Some st3\<rparr>)"
    unfolding addMessage_def Let_def c option.case p prod.case sum.case
    by (subst e) (simp add: set_EX_positive [OF s] st3_def)
  have r2: "lRange_all k st2 = lRange_all k st1" for k
    unfolding st2_def by (rule expire_positive [OF h])
  have r3: "lRange_all (getHistoryKey t) st3 = lRange_all (getHistoryKey t) st2" for t
    using session_key_not_history_key [of sid t] by (simp add: st3_def lRange_all_def)
  have r1: "lRange_all (getHistoryKey t) st1 = lRange_all (getHistoryKey t) st" if "t \<noteq> sid" for t
    using p2 that by (simp add: lRange_all_def getHistoryKey_inj)
  show ?thesis
    using a p1 r1 r2 r3 by auto
qed

subsection \<open>A run of appends\<close>

lemma addMessages_run:
  assumes "client rs = Some st" "0 < sessionTTL rs" "0 < historyTTL rs"
    and "history_keys_hold_lists st"
  shows "\<exists>st'. addMessages S rs calls = (Inr True, rs\<lparr>client := Some st'\<rparr>) \<and>
           (\<forall>s xs. lRange_all (getHistoryKey s) st = Inr xs \<longrightarrow>
              lRange_all (getHistoryKey s) st' = Inr (rev (map S (sent_to s calls)) @ xs))"
  using assms
proof (induction calls arbitrary: rs st)
  case Nil
  then show ?case
    by (cases rs) (auto simp: sent_to_def)
next
  case (Cons c calls)
  obtain sid m now where c: "c = (sid, m, now)" by (cases c)
  from Cons.prems(4) obtain xs where xs: "lRange_all (getHistoryKey sid) st = Inr xs"
    by (auto simp: history_keys_hold_lists_def)
  from addMessage_step [OF Cons.prems(1-3) xs, of S m now]
  obtain st1 where a: "addMessage S rs sid m now = (Inr True, rs\<lparr>client := Some st1\<rparr>)"
    and r: "\<forall>s. lRange_all (getHistoryKey s) st1 =
                  (if s = sid then Inr (S m # xs) else lRange_all (getHistoryKey s) st)"
    by blast
  have inv: "history_keys_hold_lists st1"
    using Cons.prems(4) r by (simp add: history_keys_hold_lists_def)
  let ?rs1 = "rs\<lparr>client := Some st1\<rparr>"
  from Cons.IH [of ?rs1 st1, OF _ _ _ inv] Cons.prems(2,3)
  obtain st' where run: "addMessages S ?rs1 calls = (Inr True, ?rs1\<lparr>client := Some st'\<rparr>)"
    and h: "\<forall>s ys. lRange_all (getHistoryKey s) st1 = Inr ys \<longrightarrow>
              lRange_all (getHistoryKey s) st' = Inr (rev (map S (sent_to s calls)) @ ys)"
    by auto
  have "addMessages S rs (c # calls) = (Inr True, rs\<lparr>client := Some st'\<rparr>)"
    using a run by (simp add: c)
  moreover have "lRange_all (getHistoryKey s) st' = Inr (rev (map S (sent_to s (c # calls))) @ ys)"
    if "lRange_all (getHistoryKey s) st = Inr ys" for s ys
  proof (cases "s = sid")
    case True
    with that xs have "ys = xs" by simp
    with True r h show ?thesis by (simp add: c sent_to_def)
  next
    case False
    with that r h show ?thesis by (simp add: c sent_to_def)
  qed
  ultimately show ?case by blast
qed

lemma parse_all_roundtrip:
  assumes "\<And>m. P (S m) = Some m"
  shows "parse_all P (map S ms) = Inr ms"
  by (induction ms) (simp_all add: assms)

text \<open>
  Claim C2. On a connected service with positive lifetimes, over a store whose history
  keys hold lists, any run of \<open>addMessage\<close> calls (to this session and to others, in any
  interleaving, with no key expiring in between) succeeds. If the session's list held the
  messages \<open>earlier\<close> before the run, most recent first, then after it the list holds
  \<open>earlier\<close> followed by the messages sent to the session, most recent first (each
  append is at the head), and \<open>getHistory\<close> returns them oldest first: exactly in the
  order they were appended. \<open>JSON.parse\<close> is taken to invert \<open>JSON.stringify\<close>.
\<close>

theorem history_is_chronological:
  assumes roundtrip: "\<And>m. JSON_parse (JSON_stringify m) = Some m"
    and conn: "client rs = Some st"
    and ttls: "0 < sessionTTL rs" "0 < historyTTL rs"
    and inv: "history_keys_hold_lists st"
    and before: "lRange_all (getHistoryKey sessionId) st = Inr (rev (map JSON_stringify earlier))"
  shows "\<exists>st'. addMessages JSON_stringify rs calls = (Inr True, rs\<lparr>client := Some st'\<rparr>) \<and>
           lRange_all (getHistoryKey sessionId) st' =
             Inr (rev (map JSON_stringify (earlier @ sent_to sessionId calls))) \<and>
           getHistory JSON_parse (rs\<lparr>client := Some st'\<rparr>) sessionId =
             Inr (earlier @ sent_to sessionId calls)"
proof -
  from addMessages_run [OF conn ttls inv, of JSON_stringify calls]
  obtain st' where run: "addMessages JSON_stringify rs calls = (Inr True, rs\<lparr>client := Some st'\<rparr>)"
    and h: "\<forall>s xs. lRange_all (getHistoryKey s) st = Inr xs \<longrightarrow>
              lRange_all (getHistoryKey s) st' = Inr (rev (map JSON_stringify (sent_to s calls)) @ xs)"
    by blast
  from h before have l: "lRange_all (getHistoryKey sessionId) st' =
      Inr (rev (map JSON_stringify (earlier @ sent_to sessionId calls)))"
    by (simp add: rev_map)
  have "getHistory JSON_parse (rs\<lparr>client := Some st'\<rparr>) sessionId =
      parse_all JSON_parse (map JSON_stringify (earlier @ sent_to sessionId calls))"
    by (simp add: getHistory_def l)
  also have "\<dots> = Inr (earlier @ sent_to sessionId calls)"
    by (rule parse_all_roundtrip) (rule roundtrip)
  finally show ?thesis using run l by blast
qed

text \<open>
  Three appends to a fresh store, two of them to session \<open>a\<close>.
\<close>

theorem history_is_chronological_witness:
  "(\<forall>m::jsstring. Some ((\<lambda>x. x) m) = Some m) \<and>
   client (connect Map.empty (RedisService_new None None)) = Some Map.empty \<and>
   0 < sessionTTL (connect Map.empty (RedisService_new None None)) \<and>
   0 < historyTTL (connect Map.empty (RedisService_new None None)) \<and>
   history_keys_hold_lists Map.empty \<and>
   lRange_all (getHistoryKey (js ''a'')) Map.empty = Inr (rev (map (\<lambda>x. x) [])) \<and>
   getHistory Some
     (snd (addMessages (\<lambda>x. x) (connect Map.empty (RedisService_new None None))
        [(js ''a'', js ''hi'', js ''t1''), (js ''b'', js ''no'', js ''t2''), (js ''a'', js ''yo'', js ''t3'')]))
     (js ''a'') = Inr [js ''hi'', js ''yo'']"
proof -
  let ?rs = "connect Map.empty (RedisService_new None None)"
  let ?calls = "[(js ''a'', js ''hi'', js ''t1''), (js ''b'', js ''no'', js ''t2''), (js ''a'', js ''yo'', js ''t3'')]"
  have c: "client ?rs = Some Map.empty"
    by (simp add: connect_def)
  have t: "0 < sessionTTL ?rs" "0 < historyTTL ?rs"
    by (simp_all add: connect_def RedisService_new_def or_default_def)
  have i: "history_keys_hold_lists Map.empty"
    by (simp add: history_keys_hold_lists_def lRange_all_def)
  have b: "lRange_all (getHistoryKey (js ''a'')) Map.empty = Inr (rev (map (\<lambda>x. x) []))"
    by (simp add: lRange_all_def)
  have s: "sent_to (js ''a'') ?calls = [js ''hi'', js ''yo'']"
    by (simp add: sent_to_def js_def)
  from history_is_chronological [of Some "\<lambda>x. x" ?rs Map.empty "js ''a''" "[]" ?calls, OF _ c t i b]
  obtain st' where "addMessages (\<lambda>x. x) ?rs ?calls = (Inr True, ?rs\<lparr>client := Some st'\<rparr>)"
    and "getHistory Some (?rs\<lparr>client := Some st'\<rparr>) (js ''a'') = Inr ([] @ sent_to (js ''a'') ?calls)"
    by auto
  then have "getHistory Some (snd (addMessages (\<lambda>x. x) ?rs ?calls)) (js ''a'') = Inr [js ''hi'', js ''yo'']"
    using s by simp
  with c t i b show ?thesis by simp
qed

subsection \<open>A session that is not there\<close>

lemma one_message_store:
  "client one_message_redis =
     Some ((Map.empty
        (getHistoryKey (js ''s1'') \<mapsto> \<lparr>rvalue = RList [js ''hello''], ttl = Some 7200\<rparr>))
        (getSessionKey (js ''s1'') \<mapsto>
           \<lparr>rvalue = RString (js ''2024-01-01T00:00:00.000Z''), ttl = Some 3600\<rparr>))"
  by (simp add: one_message_redis_def addMessage_def example_redis_def connect_def
      RedisService_new_def or_default_def lPush_def expire_def set_EX_def Let_def)

text \<open>
  Claim C9, as amended. On a connected service, \<open>getHistory\<close> of a session whose history
  key \<open>history:{id}\<close> is not in the store returns the empty list and not an error: the
  session never had a message, or the key was removed when its time to live ran out, or
  at least that time has passed since it was set. The session record \<open>session:{id}\<close> is
  another key with a lifetime of its own; its removal leaves the answer of \<open>getHistory\<close>
  as it was.
\<close>

theorem getHistory_of_absent_history:
  assumes "client rs = Some st"
  shows "(st (getHistoryKey sessionId) = None \<longrightarrow> getHistory JSON_parse rs sessionId = Inr []) \<and>
         getHistory JSON_parse (rs\<lparr>client := Some (ttl_runs_out (getHistoryKey sessionId) st)\<rparr>) sessionId =
           Inr [] \<and>
         ((\<exists>e t. st (getHistoryKey sessionId) = Some e \<and> ttl e = Some t \<and> t \<le> secs) \<longrightarrow>
            getHistory JSON_parse (after_seconds secs rs) sessionId = Inr []) \<and>
         getHistory JSON_parse (rs\<lparr>client := Some (ttl_runs_out (getSessionKey sessionId) st)\<rparr>) sessionId =
           getHistory JSON_parse rs sessionId"
proof (intro conjI impI)
  assume "st (getHistoryKey sessionId) = None"
  with assms show "getHistory JSON_parse rs sessionId = Inr []"
    by (simp add: getHistory_def lRange_all_def)
next
  show "getHistory JSON_parse (rs\<lparr>client := Some (ttl_runs_out (getHistoryKey sessionId) st)\<rparr>) sessionId =
      Inr []"
    by (simp add: getHistory_def lRange_all_def ttl_runs_out_def)
next
  assume "\<exists>e t. st (getHistoryKey sessionId) = Some e \<and> ttl e = Some t \<and> t \<le> secs"
  then have "elapse secs st (getHistoryKey sessionId) = None"
    by (auto simp: elapse_def)
  with assms show "getHistory JSON_parse (after_seconds secs rs) sessionId = Inr []"
    by (simp add: getHistory_def lRange_all_def after_seconds_def)
next
  show "getHistory JSON_parse (rs\<lparr>client := Some (ttl_runs_out (getSessionKey sessionId) st)\<rparr>) sessionId =
      getHistory JSON_parse rs sessionId"
    using assms session_key_not_history_key [of sessionId sessionId]
    by (simp add: getHistory_def lRange_all_def ttl_runs_out_def)
qed

text \<open>
  A session nobody wrote to, and the session of one message 7200 seconds later.
\<close>

theorem getHistory_of_absent_history_witness:
  "client example_redis = Some Map.empty \<and>
   getHistory (Some :: jsstring \<Rightarrow> jsstring option) example_redis (js ''nobody'') = Inr [] \<and>
   getHistory (Some :: jsstring \<Rightarrow> jsstring option) one_message_redis (js ''s1'') = Inr [js ''hello''] \<and>
   getHistory (Some :: jsstring \<Rightarrow> jsstring option) (after_seconds 7200 one_message_redis) (js ''s1'') = Inr []"
proof -
  let ?st = "(Map.empty
        (getHistoryKey (js ''s1'') \<mapsto> \<lparr>rvalue = RList [js ''hello''], ttl = Some 7200\<rparr>))
        (getSessionKey (js ''s1'') \<mapsto>
           \<lparr>rvalue = RString (js ''2024-01-01T00:00:00.000Z''), ttl = Some 3600\<rparr>)"
  have c: "client example_redis = Some Map.empty"
    by (simp add: example_redis_def connect_def)
  have k: "getSessionKey (js ''s1'') \<noteq> getHistoryKey (js ''s1'')"
    by (rule session_key_not_history_key)
  have e: "\<exists>e t. ?st (getHistoryKey (js ''s1'')) = Some e \<and> ttl e = Some t \<and> t \<le> 7200"
    using k by simp
  have h: "getHistory (Some :: jsstring \<Rightarrow> jsstring option) one_message_redis (js ''s1'') = Inr [js ''hello'']"
    using k by (simp add: getHistory_def lRange_all_def one_message_store)
  from getHistory_of_absent_history [OF c, where sessionId = "js ''nobody''" and JSON_parse = Some]
    getHistory_of_absent_history [OF one_message_store, where sessionId = "js ''s1''"
      and JSON_parse = Some and secs = 7200] c e h
  show ?thesis by simp
qed

text \<open>
  Claim C9 as stated fails for a session that has expired. With the default lifetimes the
  session record lives 3600 seconds and the history 7200: one hour after its one message
  the session is gone for \<open>sessionExists\<close>, and \<open>getHistory\<close> still returns the message.
\<close>

theorem expired_session_keeps_history:
  "sessionExists one_message_redis (js ''s1'') \<and>
   \<not> sessionExists (after_seconds 3600 one_message_redis) (js ''s1'') \<and>
   getHistory (Some :: jsstring \<Rightarrow> jsstring option) (after_seconds 3600 one_message_redis) (js ''s1'') =
     Inr [js ''hello'']"
  using session_key_not_history_key [of "js ''s1''" "js ''s1''"]
  by (simp add: sessionExists_def exists_cmd_def after_seconds_def elapse_def one_message_store
      getHistory_def lRange_all_def)

text \<open>
  \<open>clearSession\<close> on a connected service returns normally and removes both keys of the
  session; \<open>getHistory\<close> afterwards returns the empty list.
\<close>

theorem clearSession_empties_history:
  assumes "client rs = Some st"
  shows "fst (clearSession rs sessionId) = Inr True \<and>
         getHistory JSON_parse (snd (clearSession rs sessionId)) sessionId = Inr [] \<and>
         (\<exists>st'. client (snd (clearSession rs sessionId)) = Some st' \<and>
            st' (getHistoryKey sessionId) = None \<and> st' (getSessionKey sessionId) = None)"
  using assms by (simp add: clearSession_def del_def getHistory_def lRange_all_def)

section \<open>Properties of the embedding client\<close>

lemma trim_Nil: "trim [] = []"
  by (simp add: trim_def)

lemma trim_empty_iff: "trim s = [] \<longleftrightarrow> list_all is_ws s"
proof
  assume "trim s = []"
  then have a: "dropWhile is_ws (rev (dropWhile is_ws s)) = []"
    by (simp add: trim_def)
  show "list_all is_ws s"
  proof (rule ccontr)
    assume "\<not> list_all is_ws s"
    then have ne: "dropWhile is_ws s \<noteq> []"
      by (simp add: dropWhile_eq_Nil_conv list_all_iff)
    then have "\<not> is_ws (hd (dropWhile is_ws s))"
      by (rule hd_dropWhile)
    moreover have "hd (dropWhile is_ws s) \<in> set (rev (dropWhile is_ws s))"
      using ne by simp
    ultimately show False
      using a by (simp only: dropWhile_eq_Nil_conv) blast
  qed
next
  assume "list_all is_ws s"
  then have "dropWhile is_ws s = []"
    by (simp add: dropWhile_eq_Nil_conv list_all_iff)
  then show "trim s = []"
    unfolding trim_def by (simp del: dropWhile_eq_Nil_conv)
qed

lemma valid_text_iff: "valid_text t \<longleftrightarrow> \<not> whitespace_only t"
proof (cases "t = []")
  case True
  then show ?thesis by (simp add: valid_text_def truthy_def whitespace_only_def)
next
  case False
  then show ?thesis
    using trim_empty_iff [of t] by (simp add: valid_text_def truthy_def whitespace_only_def)
qed

lemma valid_text_of_trim: "trim t \<noteq> [] \<Longrightarrow> valid_text t"
  using trim_Nil by (auto simp: valid_text_def truthy_def)

lemma filter_valid_text: "filter valid_text texts = filter (\<lambda>t. \<not> whitespace_only t) texts"
  by (rule filter_cong) (simp_all add: valid_text_iff)

lemma no_valid_text_iff: "filter valid_text texts = [] \<longleftrightarrow> list_all whitespace_only texts"
  by (simp add: filter_empty_conv valid_text_iff list_all_iff)

text \<open>
  Claim C5. \<open>embedBatch\<close> of the empty array, and of an array whose entries are all empty
  or white space only, returns an explicit error and sends no request. In every other case
  the one request it sends carries the input without the empty and white-space-only entries.
\<close>

theorem embedBatch_rejects_blank_input:
  "(texts = [] \<longrightarrow>
      embedBatch jina texts =
        (Inl (Error (js ''Failed to generate batch embeddings: Texts array cannot be empty'')), [])) \<and>
   (texts \<noteq> [] \<and> list_all whitespace_only texts \<longrightarrow>
      embedBatch jina texts =
        (Inl (Error (js ''Failed to generate batch embeddings: No valid texts to embed'')), [])) \<and>
   (\<not> list_all whitespace_only texts \<longrightarrow>
      snd (embedBatch jina texts) = [JinaPost (filter (\<lambda>t. \<not> whitespace_only t) texts)])"
proof (intro conjI impI)
  assume "texts = []"
  then show "embedBatch jina texts =
      (Inl (Error (js ''Failed to generate batch embeddings: Texts array cannot be empty'')), [])"
    by (simp add: embedBatch_def batch_embeddings_failed_def js_def)
next
  assume "texts \<noteq> [] \<and> list_all whitespace_only texts"
  then have "texts \<noteq> []" "filter valid_text texts = []"
    by (simp_all add: no_valid_text_iff)
  then show "embedBatch jina texts =
      (Inl (Error (js ''Failed to generate batch embeddings: No valid texts to embed'')), [])"
    by (simp add: embedBatch_def batch_embeddings_failed_def js_def)
next
  assume a: "\<not> list_all whitespace_only texts"
  then have ne: "filter valid_text texts \<noteq> []"
    by (simp add: no_valid_text_iff)
  then have "texts \<noteq> []" by auto
  with ne show "snd (embedBatch jina texts) = [JinaPost (filter (\<lambda>t. \<not> whitespace_only t) texts)]"
    by (simp add: embedBatch_def Let_def filter_valid_text
        split: embed_reply.splits option.splits)
qed

theorem embedBatch_rejects_blank_input_witness:
  "embedBatch (\<lambda>_. EmbedRejected [] :: nat embed_reply) [] =
     (Inl (Error (js ''Failed to generate batch embeddings: Texts array cannot be empty'')), []) \<and>
   [js [], js ''  ''] \<noteq> [] \<and> list_all whitespace_only [js [], js ''  ''] \<and>
   embedBatch (\<lambda>_. EmbedRejected [] :: nat embed_reply) [js [], js ''  ''] =
     (Inl (Error (js ''Failed to generate batch embeddings: No valid texts to embed'')), []) \<and>
   \<not> list_all whitespace_only [js [], js ''a'', js '' ''] \<and>
   snd (embedBatch (\<lambda>_. EmbedRejected [] :: nat embed_reply) [js [], js ''a'', js '' '']) =
     [JinaPost [js ''a'']]"
proof -
  let ?jina = "\<lambda>_. EmbedRejected [] :: nat embed_reply"
  have w: "list_all whitespace_only [js [], js ''  '']"
    by (simp add: whitespace_only_def is_ws_def js_def)
  have n: "\<not> list_all whitespace_only [js [], js ''a'', js '' '']"
    by (simp add: whitespace_only_def is_ws_def js_def)
  have f: "filter (\<lambda>t. \<not> whitespace_only t) [js [], js ''a'', js '' ''] = [js ''a'']"
    by (simp add: whitespace_only_def is_ws_def js_def)
  show ?thesis
    using embedBatch_rejects_blank_input [of "[]" ?jina]
      embedBatch_rejects_blank_input [of "[js [], js ''  '']" ?jina]
      embedBatch_rejects_blank_input [of "[js [], js ''a'', js '' '']" ?jina]
      w n f
    by simp
qed

section \<open>Properties of the vector store client\<close>

text \<open>
  Claim C8. On a connected client, \<open>ensureCollection\<close> issues a creation call exactly
  when no collection of the store has the service's collection name, and a second call right
  after the first issues none: one creation call on the first invocation of a store without
  the collection, zero on the second. Both calls return normally, and the second leaves the
  service as the first left it.
\<close>

theorem ensureCollection_idempotent:
  assumes "qclient qs = Some st"
  shows "\<exists>qs1 calls1 calls2.
           ensureCollection qs = (Inr (), qs1, calls1 :: 'v call list) \<and>
           ensureCollection qs1 = (Inr (), qs1, calls2 :: 'v call list) \<and>
           creation_calls calls1 =
             (if list_ex (\<lambda>col. col_name col = collectionName qs) st then 0 else 1) \<and>
           creation_calls calls2 = 0"
proof (cases "list_ex (\<lambda>col. col_name col = collectionName qs) st")
  case True
  with assms have "ensureCollection qs = (Inr (), qs, [QdrantGetCollections :: 'v call])"
    by (simp add: ensureCollection_def getCollections_def)
  with True show ?thesis
    by (simp add: creation_calls_def)
next
  case False
  define st1 where "st1 = st @ [\<lparr>col_name = collectionName qs, col_size = vectorSize qs, col_distance = js ''Cosine''\<rparr>]"
  define qs1 where "qs1 = qs\<lparr>qclient := Some st1\<rparr>"
  have 1: "ensureCollection qs = (Inr (), qs1,
      [QdrantGetCollections :: 'v call, QdrantCreateCollection (collectionName qs) (vectorSize qs) (js ''Cosine'')])"
    using assms False
    by (simp add: ensureCollection_def getCollections_def createCollection_def st1_def qs1_def)
  have "list_ex (\<lambda>col. col_name col = collectionName qs1) st1"
    by (simp add: st1_def qs1_def)
  then have 2: "ensureCollection qs1 = (Inr (), qs1, [QdrantGetCollections :: 'v call])"
    by (simp add: ensureCollection_def getCollections_def qs1_def)
  from 1 2 False show ?thesis
    by (simp add: creation_calls_def)
qed

theorem ensureCollection_idempotent_witness:
  "qclient example_qdrant = Some [] \<and>
   creation_calls (snd (snd (ensureCollection example_qdrant :: (error + unit) \<times> qdrant_service \<times> nat call list))) = 1 \<and>
   creation_calls (snd (snd (ensureCollection (fst (snd (ensureCollection example_qdrant ::
       (error + unit) \<times> qdrant_service \<times> nat call list))) ::
     (error + unit) \<times> qdrant_service \<times> nat call list))) = 0"
proof -
  have h: "qclient example_qdrant = Some []"
    by (simp add: example_qdrant_def)
  from ensureCollection_idempotent [OF h, where 'v = nat]
  obtain qs1 and calls1 calls2 :: "nat call list" where
    "ensureCollection example_qdrant = (Inr (), qs1, calls1)"
    "ensureCollection qs1 = (Inr (), qs1, calls2)"
    "creation_calls calls1 = 1" "creation_calls calls2 = 0"
    by auto
  with h show ?thesis by simp
qed

section \<open>Properties of the chat endpoint\<close>

subsection \<open>Validation\<close>

text \<open>
  Claim C10. A chat request whose body has the message field, or the sessionId field,
  equal to the empty string is answered with status 400; the call log is empty (no
  embedding, search, generation or cache call) and the cache service is unchanged. The
  field is present: what the handler tests is its truthiness.
\<close>

theorem empty_field_is_rejected:
  assumes "req_message req = Some [] \<or> req_sessionId req = Some []"
  shows "post_api_chat out JSON_stringify rs qs req =
           (\<lparr>status = 400, body = ErrorReply (js ''Session ID and message are required'')\<rparr>, rs, [])"
  using assms by (auto simp: post_api_chat_def falsy_def truthy_def bad_request_def)

theorem empty_field_is_rejected_witness:
  "(req_message empty_message_request = Some [] \<or> req_sessionId empty_message_request = Some []) \<and>
   post_api_chat example_outside example_stringify example_redis example_qdrant empty_message_request =
     (\<lparr>status = 400, body = ErrorReply (js ''Session ID and message are required'')\<rparr>, example_redis, [])"
proof -
  have h: "req_message empty_message_request = Some [] \<or> req_sessionId empty_message_request = Some []"
    by (simp add: empty_message_request_def)
  from empty_field_is_rejected [OF h, of example_outside example_stringify example_redis example_qdrant] h
  show ?thesis by simp
qed

subsection \<open>A generation call that fails\<close>

lemma generateResponse_fallback:
  assumes "generation_fails (gemini (buildRAGPrompt userQuery context))"
  shows "generateResponse gemini userQuery context =
           (fallback_response, [GeminiPost (buildRAGPrompt userQuery context)])"
  using assms
  by (simp add: generateResponse_def generate_try_def generation_fails_def truthy_def
      split: gemini_reply.splits option.splits)

text \<open>
  Once the request is valid and the embedding and the search have answered, the response
  depends on the cache write alone: 200 with the generated text when \<open>addMessage\<close>
  returns, 500 when it throws.
\<close>

lemma post_api_chat_after_generation:
  assumes sid: "req_sessionId req = Some sessionId" "sessionId \<noteq> []"
    and msg: "req_message req = Some message" "message \<noteq> []"
    and emb: "embedText (jina_api out) message = (Inr queryEmbedding, log1)"
    and srch: "search (qdrant_search_api out) qs queryEmbedding 5 0.7 = (Inr relevantDocs, log2)"
    and gen: "generateResponse (gemini_api out) message
                (join (js ''\<newline>\<newline>'') (map (\<lambda>doc. or_empty (hit_content doc)) relevantDocs)) =
              (response, log3)"
  shows "post_api_chat out JSON_stringify rs qs req =
           (case addMessage JSON_stringify rs sessionId
                   \<lparr>user = message, bot = response, timestamp = clock out 0\<rparr> (clock out 1) of
              (Inl e, rs1) \<Rightarrow> (server_error, rs1, log1 @ log2 @ log3 @ [RedisAddMessage sessionId])
            | (Inr ok, rs1) \<Rightarrow>
                (\<lparr>status = 200, body = ChatReply response sessionId\<rparr>, rs1,
                 log1 @ log2 @ log3 @ [RedisAddMessage sessionId]))"
proof -
  have f: "\<not> (falsy (req_sessionId req) \<or> falsy (req_message req))"
    using sid msg by (simp add: falsy_def truthy_def)
  have o: "or_empty (req_sessionId req) = sessionId" "or_empty (req_message req) = message"
    using sid msg by (simp_all add: or_empty_def)
  show ?thesis
    unfolding post_api_chat_def if_not_P [OF f] Let_def o emb prod.case sum.case srch gen
    by (rule refl)
qed

text \<open>
  Claim C1. Take a chat request that reaches the generation call (both fields are truthy,
  the embedding and the search have answered) and whose generation call fails: the request
  is rejected, or the response carries no text. Then \<open>generateResponse\<close> returns the fixed
  apology text, having sent its one request. With the cache in service (connected, with
  positive lifetimes, the session's history key absent or holding the earlier messages),
  the endpoint answers with status 200 and that text, and \<open>getHistory\<close> afterwards returns
  the earlier messages followed by the new one, whose \<open>bot\<close> field is that text.
\<close>

theorem generation_failure_is_soft:
  fixes out :: "'v outside"
  assumes sid: "req_sessionId req = Some sessionId" "sessionId \<noteq> []"
    and msg: "req_message req = Some message" "message \<noteq> []"
    and emb: "embedText (jina_api out) message = (Inr queryEmbedding, log1)"
    and srch: "search (qdrant_search_api out) qs queryEmbedding 5 0.7 = (Inr relevantDocs, log2)"
    and ctx: "context = join (js ''\<newline>\<newline>'') (map (\<lambda>doc. or_empty (hit_content doc)) relevantDocs)"
    and fails: "generation_fails (gemini_api out (buildRAGPrompt message context))"
    and conn: "client rs = Some st"
    and ttls: "0 < sessionTTL rs" "0 < historyTTL rs"
    and before: "lRange_all (getHistoryKey sessionId) st = Inr (rev (map JSON_stringify earlier))"
    and roundtrip: "\<And>m. JSON_parse (JSON_stringify m) = Some m"
  shows "generateResponse (gemini_api out) message context =
           (fallback_response, [GeminiPost (buildRAGPrompt message context) :: 'v call]) \<and>
         (\<exists>rs1. post_api_chat out JSON_stringify rs qs req =
                  (\<lparr>status = 200, body = ChatReply fallback_response sessionId\<rparr>, rs1,
                   log1 @ log2 @ [GeminiPost (buildRAGPrompt message context), RedisAddMessage sessionId]) \<and>
                getHistory JSON_parse rs1 sessionId =
                  Inr (earlier @ [\<lparr>user = message, bot = fallback_response, timestamp = clock out 0\<rparr>]))"
proof -
  let ?m = "\<lparr>user = message, bot = fallback_response, timestamp = clock out 0\<rparr>"
  have gen: "generateResponse (gemini_api out) message context =
      (fallback_response, [GeminiPost (buildRAGPrompt message context) :: 'v call])"
    using fails by (rule generateResponse_fallback [where gemini = "gemini_api out"])
  from addMessage_step [OF conn ttls before, of JSON_stringify ?m "clock out 1"]
  obtain st' where a: "addMessage JSON_stringify rs sessionId ?m (clock out 1) =
        (Inr True, rs\<lparr>client := Some st'\<rparr>)"
    and l: "lRange_all (getHistoryKey sessionId) st' =
        Inr (JSON_stringify ?m # rev (map JSON_stringify earlier))"
    by auto
  have p: "post_api_chat out JSON_stringify rs qs req =
      (\<lparr>status = 200, body = ChatReply fallback_response sessionId\<rparr>, rs\<lparr>client := Some st'\<rparr>,
       log1 @ log2 @ [GeminiPost (buildRAGPrompt message context), RedisAddMessage sessionId])"
    using post_api_chat_after_generation [OF sid msg emb srch gen [unfolded ctx], of JSON_stringify rs] a
    by (simp add: ctx)
  have "getHistory JSON_parse (rs\<lparr>client := Some st'\<rparr>) sessionId =
      parse_all JSON_parse (map JSON_stringify (earlier @ [?m]))"
    by (simp add: getHistory_def l)
  also have "\<dots> = Inr (earlier @ [?m])"
    by (rule parse_all_roundtrip) (rule roundtrip)
  finally show ?thesis using gen p by blast
qed

lemma takeWhile_unary:
  "takeWhile (\<lambda>c. c = 1) (replicate n 1 @ 0 # r) = replicate n (1 :: 16 word)"
  by (induction n) simp_all

lemma example_roundtrip: "example_parse (example_stringify m) = Some m"
  by (simp add: example_parse_def example_stringify_def takeWhile_unary Let_def)

theorem generation_failure_is_soft_witness:
  "(\<forall>m. example_parse (example_stringify m) = Some m) \<and>
   client example_redis = Some Map.empty \<and> 0 < sessionTTL example_redis \<and> 0 < historyTTL example_redis \<and>
   embedText (jina_api example_outside) (js ''rates?'') = (Inr 6, [JinaPost [js ''rates?'']]) \<and>
   generation_fails (gemini_api example_outside (buildRAGPrompt (js ''rates?'')
      (js ''Market rally continues amid rate cut hopes''))) \<and>
   fst (post_api_chat example_outside example_stringify example_redis example_qdrant example_request) =
     \<lparr>status = 200, body = ChatReply fallback_response (js ''s1'')\<rparr> \<and>
   getHistory example_parse
     (fst (snd (post_api_chat example_outside example_stringify example_redis example_qdrant example_request)))
     (js ''s1'') =
     Inr [\<lparr>user = js ''rates?'', bot = fallback_response, timestamp = js ''2024-01-01T00:00:00.000Z''\<rparr>]"
proof -
  let ?ctx = "js ''Market rally continues amid rate cut hopes''"
  have sid: "req_sessionId example_request = Some (js ''s1'')" "js ''s1'' \<noteq> []"
    by (simp_all add: example_request_def js_def)
  have msg: "req_message example_request = Some (js ''rates?'')" "js ''rates?'' \<noteq> []"
    by (simp_all add: example_request_def js_def)
  have emb: "embedText (jina_api example_outside) (js ''rates?'') = (Inr 6, [JinaPost [js ''rates?'']])"
    by (simp add: embedText_def example_outside_def truthy_def trim_def is_ws_def js_def)
  have srch: "search (qdrant_search_api example_outside) example_qdrant 6 5 0.7 =
      (Inr [example_hit], [QdrantSearch (js ''news_articles'') 6 5 0.7])"
    by (simp add: search_def example_outside_def example_qdrant_def QdrantService_new_def)
  have ctx: "?ctx = join (js ''\<newline>\<newline>'') (map (\<lambda>doc. or_empty (hit_content doc)) [example_hit])"
    by (simp add: example_hit_def or_empty_def)
  have fails: "generation_fails (gemini_api example_outside (buildRAGPrompt (js ''rates?'') ?ctx))"
    by (simp add: example_outside_def generation_fails_def)
  have conn: "client example_redis = Some Map.empty"
    by (simp add: example_redis_def connect_def)
  have ttls: "0 < sessionTTL example_redis" "0 < historyTTL example_redis"
    by (simp_all add: example_redis_def connect_def RedisService_new_def or_default_def)
  have before: "lRange_all (getHistoryKey (js ''s1'')) Map.empty = Inr (rev (map example_stringify []))"
    by (simp add: lRange_all_def)
  have c: "clock example_outside 0 = js ''2024-01-01T00:00:00.000Z''"
    by (simp add: example_outside_def)
  from generation_failure_is_soft [OF sid msg emb srch ctx fails conn ttls before example_roundtrip]
  obtain rs1 where
    "fst (post_api_chat example_outside example_stringify example_redis example_qdrant example_request) =
       \<lparr>status = 200, body = ChatReply fallback_response (js ''s1'')\<rparr>"
    "fst (snd (post_api_chat example_outside example_stringify example_redis example_qdrant example_request)) = rs1"
    "getHistory example_parse rs1 (js ''s1'') =
       Inr [\<lparr>user = js ''rates?'', bot = fallback_response, timestamp = clock example_outside 0\<rparr>]"
    by auto
  with example_roundtrip conn ttls emb fails c show ?thesis
    by simp
qed

text \<open>
  The session of the example request, cleared after the chat.
\<close>

theorem clearSession_empties_history_witness:
  "client example_redis = Some Map.empty \<and>
   getHistory example_parse
     (snd (clearSession
        (fst (snd (post_api_chat example_outside example_stringify example_redis example_qdrant example_request)))
        (js ''s1'')))
     (js ''s1'') = Inr []"
proof -
  let ?rs1 = "fst (snd (post_api_chat example_outside example_stringify example_redis example_qdrant example_request))"
  have c: "client example_redis = Some Map.empty"
    by (simp add: example_redis_def connect_def)
  have "\<exists>st. client ?rs1 = Some st"
    by (simp add: post_api_chat_def addMessage_def c Let_def lPush_def expire_def set_EX_def
        split: prod.splits sum.splits option.splits redis_value.splits if_splits)
  then obtain st where "client ?rs1 = Some st" by blast
  from clearSession_empties_history [OF this, of "js ''s1''" example_parse] c
  show ?thesis by simp
qed

section \<open>Properties of the ingestion script\<close>

subsection \<open>The length of an article's content\<close>

text \<open>
  The content of an article is the combined text when that has at most 8000 code units,
  and otherwise its first 8000 code units followed by three dots: at most 8003 code units.
\<close>

lemma processArticle_content_bound:
  "length (article_content (fst (processArticle cheerio_text now ni item feedIndex))) \<le> 8003"
  by (simp add: processArticle_def Let_def substring0_def js_def)

lemma replace_runs_replicate:
  "\<not> p a \<Longrightarrow> replace_runs p (replicate n a) = replicate n a"
  by (induction n) simp_all

lemma cleanHtmlContent_plain_text:
  "cleanHtmlContent (\<lambda>html. html) (replicate 9000 0x61) = replicate 9000 0x61"
proof -
  have w: "\<not> is_ws 0x61"
    by (simp add: is_ws_def)
  have n: "(0x61 :: 16 word) \<noteq> 0xA"
    by simp
  have "replace_runs (\<lambda>c. c = 0xA) (replace_runs is_ws (replicate 9000 0x61)) = replicate 9000 0x61"
    using w n by (simp add: replace_runs_replicate)
  moreover have "trim (replicate 9000 0x61) = replicate 9000 0x61"
    using w by (simp add: trim_def)
  ultimately show ?thesis
    by (simp add: cleanHtmlContent_def truthy_def)
qed

text \<open>
  Claim C4. The content of a processed article is said to be at most 8000 characters long.
  For an item whose title has 8001 code units and that has no other field, and for an item
  with a one-letter title and 9000 code units of plain text as encoded content,
  \<open>processArticle\<close> returns a content of 8003 code units: the cut at 8000 is followed by
  the three dots.
\<close>

theorem processArticle_content_8003:
  "length (article_content (fst (processArticle (\<lambda>html. html) (js ''2024-01-01T00:00:00.000Z'')
     NewsIngestion_new long_title_item 0))) = 8003 \<and>
   length (article_content (fst (processArticle (\<lambda>html. html) (js ''2024-01-01T00:00:00.000Z'')
     NewsIngestion_new long_content_item 0))) = 8003"
proof
  show "length (article_content (fst (processArticle (\<lambda>html. html) (js ''2024-01-01T00:00:00.000Z'')
     NewsIngestion_new long_title_item 0))) = 8003"
    by (simp add: processArticle_def Let_def long_title_item_def titled_def or_string_def or_else_def
        or_empty_def falsy_def truthy_def cleanHtmlContent_def substring0_def js_def)
next
  have e: "cleanHtmlContent (\<lambda>html. html) [] = []"
    by (simp add: cleanHtmlContent_def truthy_def)
  have r: "replicate 9000 (0x61 :: 16 word) \<noteq> []"
    by simp
  show "length (article_content (fst (processArticle (\<lambda>html. html) (js ''2024-01-01T00:00:00.000Z'')
     NewsIngestion_new long_content_item 0))) = 8003"
    using r
    by (simp add: processArticle_def Let_def long_content_item_def titled_def or_string_def or_else_def
        or_empty_def falsy_def truthy_def e cleanHtmlContent_plain_text substring0_def js_def)
qed

subsection \<open>The caps of fetchAllArticles\<close>

lemma processArticle_counter:
  "articleCounter (snd (processArticle cheerio_text now ni item feedIndex)) = articleCounter ni + 1"
  "feeds (snd (processArticle cheerio_text now ni item feedIndex)) = feeds ni"
  by (simp_all add: processArticle_def Let_def)

lemma map_processArticle_length:
  "length (fst (map_processArticle cheerio_text now ni items i)) = length items"
  by (induction items arbitrary: ni) (simp_all add: case_prod_beta)

lemma map_processArticle_feeds:
  "feeds (snd (map_processArticle cheerio_text now ni items i)) = feeds ni"
  by (induction items arbitrary: ni) (simp_all add: case_prod_beta processArticle_counter)

lemma feed_articles_at_most_10:
  "length (fst (feed_articles parseURL cheerio_text now ni i ::
     article list \<times> news_ingestion \<times> 'v call list)) \<le> 10"
  by (simp add: feed_articles_def Let_def case_prod_beta map_processArticle_length)

lemma fold_feed_step_chunks:
  fixes calls :: "'v call list"
  shows "\<exists>ni1 chunks calls1.
     fold (feed_step parseURL cheerio_text now) xs (ni, allArticles, calls) =
       (ni1, allArticles @ concat chunks, calls1) \<and>
     length chunks = length xs \<and> list_all (\<lambda>c. length c \<le> 10) chunks"
proof (induction xs arbitrary: ni allArticles calls)
  case Nil
  then show ?case by simp
next
  case (Cons x xs)
  obtain processed ni1 and calls1 :: "'v call list"
    where f: "feed_articles parseURL cheerio_text now ni x = (processed, ni1, calls1)"
    by (cases "feed_articles parseURL cheerio_text now ni x :: article list \<times> news_ingestion \<times> 'v call list") auto
  then have p: "length processed \<le> 10"
    using feed_articles_at_most_10 [of parseURL cheerio_text now ni x, where 'v = 'v] by simp
  from Cons.IH [of ni1 "allArticles @ processed" "calls @ calls1"]
  obtain ni2 chunks calls2 where
    r: "fold (feed_step parseURL cheerio_text now) xs (ni1, allArticles @ processed, calls @ calls1) =
          (ni2, (allArticles @ processed) @ concat chunks, calls2)"
    and l: "length chunks = length xs" and c: "list_all (\<lambda>c. length c \<le> 10) chunks"
    by blast
  have "fold (feed_step parseURL cheerio_text now) (x # xs) (ni, allArticles, calls) =
      (ni2, allArticles @ concat (processed # chunks), calls2)"
    using f r by (simp add: feed_step_def)
  moreover have "length (processed # chunks) = length (x # xs)"
    using l by simp
  moreover have "list_all (\<lambda>c. length c \<le> 10) (processed # chunks)"
    using p c by simp
  ultimately show ?case by blast
qed

text \<open>
  Claim C7. Whatever the feeds deliver, \<open>fetchAllArticles\<close> returns at most 50 articles,
  the loop body takes at most 10 processed articles from a feed, and what is returned is the
  first 50 of the concatenation of one chunk per feed, each chunk of at most 10 articles.
\<close>

theorem fetchAllArticles_caps:
  "length (fst (fetchAllArticles parseURL cheerio_text now ni :: 'v fetched)) \<le> 50 \<and>
   length (fst (feed_articles parseURL cheerio_text now ni' i :: 'v fetched)) \<le> 10 \<and>
   (\<exists>chunks. length chunks = length (feeds ni) \<and> list_all (\<lambda>c. length c \<le> 10) chunks \<and>
      fst (fetchAllArticles parseURL cheerio_text now ni :: 'v fetched) = take 50 (concat chunks))"
proof -
  let ?run = "fetchAllArticles parseURL cheerio_text now ni :: 'v fetched"
  from fold_feed_step_chunks [of parseURL cheerio_text now "[0..<length (feeds ni)]" ni "[]" "[] :: 'v call list"]
  obtain ni1 chunks and calls1 :: "'v call list" where
    "fold (feed_step parseURL cheerio_text now) [0..<length (feeds ni)] (ni, [], []) =
       (ni1, concat chunks, calls1)"
    and "length chunks = length (feeds ni)" and "list_all (\<lambda>c. length c \<le> 10) chunks"
    by auto
  then have "length chunks = length (feeds ni) \<and> list_all (\<lambda>c. length c \<le> 10) chunks \<and>
      fst ?run = take 50 (concat chunks)"
    by (simp add: fetchAllArticles_def)
  moreover have "length (fst ?run) \<le> 50"
    by (simp add: fetchAllArticles_def split: prod.splits)
  ultimately show ?thesis
    using feed_articles_at_most_10 [of parseURL cheerio_text now ni' i, where 'v = 'v] by blast
qed

subsection \<open>A feed that fails\<close>

lemma fetchFeed_from_attempts:
  "length (filter is_feed_request (snd (fetchFeed_from parseURL feedUrl retries attempt :: feed_item list \<times> 'v call list)))
     \<le> retries + 1 - attempt"
proof (induction parseURL feedUrl retries attempt rule: fetchFeed_from.induct)
  case (1 parseURL feedUrl retries attempt)
  show ?case
  proof (cases "attempt \<le> retries")
    case False
    then show ?thesis by (subst fetchFeed_from.simps) simp
  next
    case le: True
    show ?thesis
    proof (cases "parseURL feedUrl attempt")
      case (Parsed items)
      with le show ?thesis by (subst fetchFeed_from.simps) simp
    next
      case (ParseFailed msg)
      show ?thesis
      proof (cases "attempt = retries")
        case True
        with le ParseFailed show ?thesis by (subst fetchFeed_from.simps) simp
      next
        case False
        from "1.IH" [OF le ParseFailed False]
        have "length (filter is_feed_request
            (snd (fetchFeed_from parseURL feedUrl retries (attempt + 1) :: feed_item list \<times> 'v call list)))
              \<le> retries + 1 - (attempt + 1)" .
        with le ParseFailed False show ?thesis
          by (subst fetchFeed_from.simps) (simp add: case_prod_beta)
      qed
    qed
  qed
qed

lemma fetchFeed_from_all_fail:
  assumes "\<forall>attempt. \<exists>msg. parseURL feedUrl attempt = ParseFailed msg"
  shows "fst (fetchFeed_from parseURL feedUrl retries attempt :: feed_item list \<times> 'v call list) = []"
  using assms
proof (induction parseURL feedUrl retries attempt rule: fetchFeed_from.induct)
  case (1 parseURL feedUrl retries attempt)
  from "1.prems" obtain msg where f: "parseURL feedUrl attempt = ParseFailed msg" by blast
  show ?case
  proof (cases "attempt \<le> retries \<and> attempt \<noteq> retries")
    case True
    then have "fst (fetchFeed_from parseURL feedUrl retries (attempt + 1) :: feed_item list \<times> 'v call list) = []"
      using "1.IH" [OF _ f] "1.prems" by simp
    with True f show ?thesis
      by (subst fetchFeed_from.simps) (simp add: case_prod_beta)
  next
    case False
    with f show ?thesis
      by (subst fetchFeed_from.simps) auto
  qed
qed

lemma fetchFeed_twice_then_empty:
  assumes "\<forall>attempt. \<exists>msg. parseURL feedUrl attempt = ParseFailed msg"
  shows "fetchFeed parseURL feedUrl 2 = ([], [FeedRequest feedUrl, Sleep 2000, FeedRequest feedUrl])"
proof -
  from assms obtain m1 m2 where
    f: "parseURL feedUrl (Suc 0) = ParseFailed m1" "parseURL feedUrl (Suc (Suc 0)) = ParseFailed m2"
    by blast
  have 2: "fetchFeed_from parseURL feedUrl (Suc (Suc 0)) (Suc (Suc 0)) = ([], [FeedRequest feedUrl])"
    by (subst fetchFeed_from.simps) (simp add: f)
  have "fetchFeed_from parseURL feedUrl (Suc (Suc 0)) (Suc 0) =
      ([], [FeedRequest feedUrl, Sleep 2000, FeedRequest feedUrl])"
    by (subst fetchFeed_from.simps) (simp add: f 2)
  then show ?thesis
    by (simp add: fetchFeed_def numeral_2_eq_2)
qed

lemma feed_step_failing_feed:
  assumes "\<forall>attempt. \<exists>msg. parseURL (feeds ni ! i) attempt = ParseFailed msg"
  shows "\<exists>calls1. feed_step parseURL cheerio_text now i (ni, allArticles, calls) = (ni, allArticles, calls1)"
  by (simp add: feed_step_def feed_articles_def
      fetchFeed_twice_then_empty [where parseURL = parseURL and feedUrl = "feeds ni ! i", OF assms])

lemma feed_step_articles_independent_of_calls:
  fixes calls calls' :: "'v call list"
  shows "\<exists>ni1 all1 calls1 calls2.
     feed_step parseURL cheerio_text now i (ni, allArticles, calls) = (ni1, all1, calls1) \<and>
     feed_step parseURL cheerio_text now i (ni, allArticles, calls') = (ni1, all1, calls2)"
  by (simp add: feed_step_def split: prod.splits)

lemma feed_step_feeds:
  fixes calls :: "'v call list"
  assumes "feed_step parseURL cheerio_text now i (ni, allArticles, calls) = (ni1, all1, calls1)"
  shows "feeds ni1 = feeds ni"
proof -
  have "feeds (fst (snd (feed_articles parseURL cheerio_text now ni i :: 'v fetched))) = feeds ni"
    by (simp add: feed_articles_def Let_def case_prod_beta map_processArticle_feeds)
  with assms show ?thesis
    by (auto simp: feed_step_def split: prod.splits)
qed

lemma fold_feed_step_skips_failing:
  fixes calls calls' :: "'v call list"
  assumes fails: "\<forall>attempt. \<exists>msg. parseURL url attempt = ParseFailed msg"
    and fs: "feeds ni = fs"
  shows "\<exists>ni1 all1 calls1 calls2.
           fold (feed_step parseURL cheerio_text now) xs (ni, allArticles, calls) = (ni1, all1, calls1) \<and>
           fold (feed_step parseURL cheerio_text now) (filter (\<lambda>i. fs ! i \<noteq> url) xs) (ni, allArticles, calls') =
             (ni1, all1, calls2)"
  using fs
proof (induction xs arbitrary: ni allArticles calls calls')
  case Nil
  then show ?case by simp
next
  case (Cons x xs)
  show ?case
  proof (cases "fs ! x = url")
    case True
    with fails Cons.prems have "\<forall>attempt. \<exists>msg. parseURL (feeds ni ! x) attempt = ParseFailed msg"
      by simp
    from feed_step_failing_feed [where parseURL = parseURL and ni = ni and i = x
        and cheerio_text = cheerio_text and now = now and allArticles = allArticles and calls = calls] this
    obtain c1 :: "'v call list"
      where s: "feed_step parseURL cheerio_text now x (ni, allArticles, calls) = (ni, allArticles, c1)"
      by blast
    from Cons.IH [OF Cons.prems, of allArticles c1 calls'] s True show ?thesis
      by simp
  next
    case False
    from feed_step_articles_independent_of_calls [of parseURL cheerio_text now x ni allArticles calls calls']
    obtain ni1 all1 and c1 c2 :: "'v call list" where
      s1: "feed_step parseURL cheerio_text now x (ni, allArticles, calls) = (ni1, all1, c1)" and
      s2: "feed_step parseURL cheerio_text now x (ni, allArticles, calls') = (ni1, all1, c2)"
      by blast
    have "feeds ni1 = fs"
      using feed_step_feeds [OF s1] Cons.prems by simp
    from Cons.IH [OF this, of all1 c1 c2] s1 s2 False show ?thesis
      by simp
  qed
qed

text \<open>
  Claim C6. \<open>fetchFeed\<close> sends at most \<open>retries\<close> requests, whatever the feed answers
  (two, with the default). For a feed that fails on every attempt it returns the empty list,
  and with the default it sends two requests with a pause of 2000 ms between them. A run of
  \<open>fetchAllArticles\<close> over feeds among which that one occurs returns what the loop over
  the other feeds alone collects (the first 50 of it): the failing feed adds nothing and
  stops nothing.
\<close>

theorem failing_feed_is_skipped:
  assumes "\<forall>attempt. \<exists>msg. parseURL url attempt = ParseFailed msg"
  shows "length (filter is_feed_request (snd (fetchFeed parseURL' url' retries :: feed_item list \<times> 'v call list)))
           \<le> retries \<and>
         (fetchFeed parseURL url 2 :: feed_item list \<times> 'v call list) =
           ([], [FeedRequest url, Sleep 2000, FeedRequest url]) \<and>
         fst (fetchFeed parseURL url retries :: feed_item list \<times> 'v call list) = [] \<and>
         fst (fetchAllArticles parseURL cheerio_text now ni :: 'v fetched) =
           take 50 (fst (snd (fold (feed_step parseURL cheerio_text now)
                                (filter (\<lambda>i. feeds ni ! i \<noteq> url) [0..<length (feeds ni)])
                                (ni, [], [] :: 'v call list))))"
proof -
  have 1: "length (filter is_feed_request (snd (fetchFeed parseURL' url' retries :: feed_item list \<times> 'v call list)))
      \<le> retries"
    using fetchFeed_from_attempts [of parseURL' url' retries 1, where 'v = 'v]
    by (simp add: fetchFeed_def)
  have 2: "fst (fetchFeed parseURL url retries :: feed_item list \<times> 'v call list) = []"
    by (simp add: fetchFeed_def
        fetchFeed_from_all_fail [where parseURL = parseURL and feedUrl = url, OF assms])
  from fold_feed_step_skips_failing [where parseURL = parseURL and url = url and ni = ni
      and cheerio_text = cheerio_text and now = now and xs = "[0..<length (feeds ni)]"
      and allArticles = "[]" and calls = "[]" and calls' = "[]" and 'v = 'v, OF assms refl]
  obtain ni1 all1 and c1 c2 :: "'v call list" where
    "fold (feed_step parseURL cheerio_text now) [0..<length (feeds ni)] (ni, [], []) = (ni1, all1, c1)"
    "fold (feed_step parseURL cheerio_text now) (filter (\<lambda>i. feeds ni ! i \<noteq> url) [0..<length (feeds ni)])
       (ni, [], []) = (ni1, all1, c2)"
    by blast
  then have 3: "fst (fetchAllArticles parseURL cheerio_text now ni :: 'v fetched) =
      take 50 (fst (snd (fold (feed_step parseURL cheerio_text now)
                           (filter (\<lambda>i. feeds ni ! i \<noteq> url) [0..<length (feeds ni)])
                           (ni, [], [] :: 'v call list))))"
    by (simp add: fetchAllArticles_def)
  have 4: "(fetchFeed parseURL url 2 :: feed_item list \<times> 'v call list) =
      ([], [FeedRequest url, Sleep 2000, FeedRequest url])"
    by (rule fetchFeed_twice_then_empty [where parseURL = parseURL and feedUrl = url, OF assms])
  from 1 2 3 4 show ?thesis
    by blast
qed

text \<open>
  Three feeds of which the second fails on every attempt: the articles of the first and of
  the third are returned.
\<close>

theorem failing_feed_is_skipped_witness:
  "(\<forall>attempt. \<exists>msg. example_parseURL (js ''b'') attempt = ParseFailed msg) \<and>
   (fetchFeed example_parseURL (js ''b'') 2 :: feed_item list \<times> nat call list) =
     ([], [FeedRequest (js ''b''), Sleep 2000, FeedRequest (js ''b'')]) \<and>
   map article_title (fst (fetchAllArticles example_parseURL (\<lambda>html. html) (js ''now'') three_feeds :: nat fetched)) =
     [js ''a'', js ''c'']"
proof -
  have h: "\<forall>attempt. \<exists>msg. example_parseURL (js ''b'') attempt = ParseFailed msg"
    by (simp add: example_parseURL_def)
  have ab: "js ''a'' \<noteq> js ''b''" "js ''c'' \<noteq> js ''b''"
    by (simp_all add: js_def)
  have f: "filter (\<lambda>i. feeds three_feeds ! i \<noteq> js ''b'') [0..<length (feeds three_feeds)] = [0, 2]"
    using ab by (simp add: three_feeds_def upt_rec)
  have fa: "(fetchFeed example_parseURL u 2 :: feed_item list \<times> nat call list) = ([titled u], [FeedRequest u])"
    if "u \<noteq> js ''b''" for u
    using that by (simp add: fetchFeed_def fetchFeed_from.simps [of _ _ _ "Suc 0"] example_parseURL_def)
  have s: "map article_title (fst (snd (fold (feed_step example_parseURL (\<lambda>html. html) (js ''now'')) [0, 2]
      (three_feeds, [], [] :: nat call list)))) = [js ''a'', js ''c'']"
    using ab
    by (simp add: feed_step_def feed_articles_def fa three_feeds_def processArticle_def Let_def
        titled_def or_string_def or_else_def or_empty_def falsy_def truthy_def cleanHtmlContent_def
        nth_opt_def)
  from failing_feed_is_skipped [where parseURL = example_parseURL and url = "js ''b''" and 'v = nat
      and ni = three_feeds and cheerio_text = "\<lambda>html. html" and now = "js ''now''", OF h]
  have "(fetchFeed example_parseURL (js ''b'') 2 :: feed_item list \<times> nat call list) =
      ([], [FeedRequest (js ''b''), Sleep 2000, FeedRequest (js ''b'')])"
    and "fst (fetchAllArticles example_parseURL (\<lambda>html. html) (js ''now'') three_feeds :: nat fetched) =
      take 50 (fst (snd (fold (feed_step example_parseURL (\<lambda>html. html) (js ''now''))
        (filter (\<lambda>i. feeds three_feeds ! i \<noteq> js ''b'') [0..<length (feeds three_feeds)])
        (three_feeds, [], [] :: nat call list))))"
    by blast+
  with h f s show ?thesis
    by (simp add: take_map [symmetric])
qed

subsection \<open>Articles and their embeddings\<close>

lemma filter_all_valid:
  assumes "\<forall>a\<in>set batch. trim (article_content a) \<noteq> []"
  shows "filter valid_text (map article_content batch) = map article_content batch"
  using assms by (simp add: valid_text_of_trim)

lemma batch_documents_of_map:
  "batch_documents now batch (map E (map article_content batch)) =
     map (\<lambda>a. document_of now a (Some (E (article_content a)))) batch"
  by (rule nth_equalityI) (simp_all add: batch_documents_def nth_opt_def)

lemma ingest_batch_pairs_own_embedding_aux:
  assumes "batch \<noteq> []"
    and "\<forall>a\<in>set batch. trim (article_content a) \<noteq> []"
    and "jina (map article_content batch) = EmbedData (Some (map E (map article_content batch)))"
  shows "embedBatch jina (map article_content batch) =
           (Inr (map E (map article_content batch)), [JinaPost (map article_content batch)]) \<and>
         ingest_batch jina now batch =
           (Inr (map (\<lambda>a. document_of now a (Some (E (article_content a)))) batch),
            [JinaPost (map article_content batch)])"
proof -
  have e: "embedBatch jina (map article_content batch) =
      (Inr (map E (map article_content batch)), [JinaPost (map article_content batch)])"
    using assms(1,3) by (simp add: embedBatch_def Let_def filter_all_valid [OF assms(2)])
  then show ?thesis
    by (simp add: ingest_batch_def batch_documents_of_map del: map_map)
qed

text \<open>
  Claim C3. For a batch in which the content of every article is non-empty after
  trimming, \<open>embedBatch\<close> sends the content of every article, in order. When the
  provider answers with one embedding per text, in order (\<open>E\<close> maps a text to its
  embedding), \<open>embedBatch\<close> returns as many embeddings as the batch has articles, and
  the document built for the \<open>j\<close>-th article has that article's id and, as its vector,
  the \<open>j\<close>-th embedding returned, which is the embedding of that article's own content.
\<close>

theorem ingest_batch_pairs_own_embedding:
  assumes "batch \<noteq> []"
    and "\<forall>a\<in>set batch. trim (article_content a) \<noteq> []"
    and "jina (map article_content batch) = EmbedData (Some (map E (map article_content batch)))"
  shows "\<exists>embeddings docs.
           embedBatch jina (map article_content batch) =
             (Inr embeddings, [JinaPost (map article_content batch)]) \<and>
           ingest_batch jina now batch = (Inr docs, [JinaPost (map article_content batch)]) \<and>
           length embeddings = length batch \<and> length docs = length batch \<and>
           (\<forall>j < length batch.
              doc_id (docs ! j) = article_id (batch ! j) \<and>
              doc_vector (docs ! j) = Some (embeddings ! j) \<and>
              embeddings ! j = E (article_content (batch ! j)))"
proof -
  let ?es = "map E (map article_content batch)"
  let ?docs = "map (\<lambda>a. document_of now a (Some (E (article_content a)))) batch"
  from ingest_batch_pairs_own_embedding_aux [where jina = jina and E = E and batch = batch
      and now = now, OF assms]
  have e: "embedBatch jina (map article_content batch) = (Inr ?es, [JinaPost (map article_content batch)])"
    and i: "ingest_batch jina now batch = (Inr ?docs, [JinaPost (map article_content batch)])"
    by blast+
  have "\<forall>j < length batch.
      doc_id (?docs ! j) = article_id (batch ! j) \<and>
      doc_vector (?docs ! j) = Some (?es ! j) \<and>
      ?es ! j = E (article_content (batch ! j))"
    by (simp add: document_of_def)
  moreover have "length ?es = length batch" "length ?docs = length batch"
    by simp_all
  ultimately show ?thesis
    using e i by blast
qed

theorem ingest_batch_pairs_own_embedding_witness:
  "[article_with 1 (js ''x''), article_with 2 (js ''yz'')] \<noteq> [] \<and>
   trim (article_content (article_with 1 (js ''x''))) \<noteq> [] \<and>
   trim (article_content (article_with 2 (js ''yz''))) \<noteq> [] \<and>
   map doc_id (projr (fst (ingest_batch (\<lambda>texts. EmbedData (Some (map length texts))) (js ''now'')
       [article_with 1 (js ''x''), article_with 2 (js ''yz'')]))) = [1, 2] \<and>
   map doc_vector (projr (fst (ingest_batch (\<lambda>texts. EmbedData (Some (map length texts))) (js ''now'')
       [article_with 1 (js ''x''), article_with 2 (js ''yz'')]))) = [Some 1, Some 2]"
proof -
  let ?batch = "[article_with 1 (js ''x''), article_with 2 (js ''yz'')]"
  let ?jina = "\<lambda>texts :: jsstring list. EmbedData (Some (map length texts))"
  have t: "trim (article_content (article_with 1 (js ''x''))) \<noteq> []"
    "trim (article_content (article_with 2 (js ''yz''))) \<noteq> []"
    by (simp_all add: article_with_def trim_def is_ws_def js_def)
  then have a: "\<forall>a\<in>set ?batch. trim (article_content a) \<noteq> []"
    by simp
  have n: "?batch \<noteq> []" by simp
  have j: "?jina (map article_content ?batch) = EmbedData (Some (map length (map article_content ?batch)))"
    by simp
  from ingest_batch_pairs_own_embedding [where jina = ?jina and E = length and batch = ?batch
      and now = "js ''now''", OF n a j]
  obtain embeddings and docs :: "nat document list" where
    i: "ingest_batch ?jina (js ''now'') ?batch = (Inr docs, [JinaPost (map article_content ?batch)])"
    and l: "length docs = length ?batch"
    and p: "\<forall>j < length ?batch.
              doc_id (docs ! j) = article_id (?batch ! j) \<and>
              doc_vector (docs ! j) = Some (embeddings ! j) \<and>
              embeddings ! j = length (article_content (?batch ! j))"
    by blast
  from p have p0: "doc_id (docs ! 0) = 1" "doc_vector (docs ! 0) = Some 1"
    by (simp_all add: article_with_def js_def)
  from p have "doc_id (docs ! 1) = article_id (?batch ! 1) \<and>
      doc_vector (docs ! 1) = Some (embeddings ! 1) \<and>
      embeddings ! 1 = length (article_content (?batch ! 1))"
    by simp
  then have p1: "doc_id (docs ! 1) = 2" "doc_vector (docs ! 1) = Some 2"
    by (simp_all add: article_with_def js_def)
  from l obtain d0 d1 where d: "docs = [d0, d1]"
    by (cases docs; cases "tl docs") auto
  with p0 p1 have "map doc_id docs = [1, 2]" "map doc_vector docs = [Some 1, Some 2]"
    by simp_all
  with i t show ?thesis by simp
qed

text \<open>
  The condition on the contents is needed: in a batch whose first article has empty content,
  the filter of \<open>embedBatch\<close> drops that text, the document of the first article has as
  its vector the embedding of the second article's content, and the document of the second
  has none.
\<close>

lemma blank_article_shifts_embeddings:
  "map doc_id (projr (fst (ingest_batch (\<lambda>texts. EmbedData (Some (map length texts))) (js ''now'')
       [article_with 1 [], article_with 2 (js ''yz'')]))) = [1, 2] \<and>
   map doc_vector (projr (fst (ingest_batch (\<lambda>texts. EmbedData (Some (map length texts))) (js ''now'')
       [article_with 1 [], article_with 2 (js ''yz'')]))) = [Some 2, None] \<and>
   snd (ingest_batch (\<lambda>texts. EmbedData (Some (map length texts)) :: nat embed_reply) (js ''now'')
       [article_with 1 [], article_with 2 (js ''yz'')]) = [JinaPost [js ''yz'']]"
proof -
  have "ingest_batch (\<lambda>texts. EmbedData (Some (map length texts))) (js ''now'')
       [article_with 1 [], article_with 2 (js ''yz'')] =
     (Inr [document_of (js ''now'') (article_with 1 []) (Some (length (js ''yz''))),
           document_of (js ''now'') (article_with 2 (js ''yz'')) None],
      [JinaPost [js ''yz'']])"
    by (simp add: ingest_batch_def embedBatch_def batch_documents_def nth_opt_def valid_text_def
        truthy_def trim_def is_ws_def article_with_def js_def upt_rec)
  moreover have "length (js ''yz'') = 2"
    by (simp add: js_def)
  ultimately show ?thesis
    by (simp add: document_of_def article_with_def)
qed

lemma embed_batches_all_valid:
  assumes valid: "\<forall>a\<in>set articles. trim (article_content a) \<noteq> []"
    and faithful: "\<forall>texts. jina texts = EmbedData (Some (map E texts))"
  shows "fst (embed_batches jina now articles i documents calls) =
           documents @ map (\<lambda>a. document_of now a (Some (E (article_content a)))) (drop i articles)"
  using assms
proof (induction jina now articles i documents calls rule: embed_batches.induct)
  case (1 jina now articles i documents calls)
  note valid = "1.prems"(1) and faithful = "1.prems"(2)
  let ?f = "\<lambda>a. document_of now a (Some (E (article_content a)))"
  show ?case
  proof (cases "i < length articles")
    case False
    then show ?thesis
      by (subst embed_batches.simps) simp
  next
    case True
    let ?batch = "take 10 (drop i articles)"
    have ne: "?batch \<noteq> []"
      using True by simp
    have "set ?batch \<subseteq> set articles"
      by (meson set_take_subset set_drop_subset subset_trans)
    with valid have v: "\<forall>a\<in>set ?batch. trim (article_content a) \<noteq> []"
      by blast
    have j: "jina (map article_content ?batch) = EmbedData (Some (map E (map article_content ?batch)))"
      using faithful by blast
    have b: "ingest_batch jina now ?batch = (Inr (map ?f ?batch), [JinaPost (map article_content ?batch)])"
      using ingest_batch_pairs_own_embedding_aux [where jina = jina and E = E and batch = ?batch
          and now = now, OF ne v j] by simp
    have "fst (embed_batches jina now articles (i + 10) (documents @ map ?f ?batch)
        (calls @ [JinaPost (map article_content ?batch)] @ [Sleep 2000])) =
        (documents @ map ?f ?batch) @ map ?f (drop (i + 10) articles)"
      by (rule "1.IH"(2) [OF True refl b [symmetric] refl valid faithful])
    moreover have "?batch @ drop (i + 10) articles = drop i articles"
      using append_take_drop_id [of 10 "drop i articles"] by (simp add: add.commute)
    then have "map ?f ?batch @ map ?f (drop (i + 10) articles) = map ?f (drop i articles)"
      by (metis map_append)
    ultimately show ?thesis
      using True b by (subst embed_batches.simps) (simp add: Let_def)
  qed
qed

text \<open>
  Over the whole loop: when no article has a content that is empty after trimming and the
  provider answers every request with one embedding per text, in order, the documents built
  have the ids of the articles, in order, and each has as its vector the embedding of its
  own article's content.
\<close>

theorem embed_batches_pairs_own_embeddings:
  assumes "\<forall>a\<in>set articles. trim (article_content a) \<noteq> []"
    and "\<forall>texts. jina texts = EmbedData (Some (map E texts))"
  shows "map doc_id (fst (embed_batches jina now articles 0 [] [])) = map article_id articles \<and>
         map doc_vector (fst (embed_batches jina now articles 0 [] [])) =
           map (\<lambda>a. Some (E (article_content a))) articles"
  using embed_batches_all_valid [where jina = jina and E = E and articles = articles and i = 0
      and documents = "[]" and calls = "[]" and now = now, OF assms]
  by (simp add: document_of_def comp_def)

theorem embed_batches_pairs_own_embeddings_witness:
  "trim (article_content (article_with 1 (js ''x''))) \<noteq> [] \<and>
   trim (article_content (article_with 2 (js ''yz''))) \<noteq> [] \<and>
   map doc_id (fst (embed_batches (\<lambda>texts. EmbedData (Some (map length texts))) (js ''now'')
       [article_with 1 (js ''x''), article_with 2 (js ''yz'')] 0 [] [])) = [1, 2] \<and>
   map doc_vector (fst (embed_batches (\<lambda>texts. EmbedData (Some (map length texts))) (js ''now'')
       [article_with 1 (js ''x''), article_with 2 (js ''yz'')] 0 [] [])) = [Some 1, Some 2]"
proof -
  let ?articles = "[article_with 1 (js ''x''), article_with 2 (js ''yz'')]"
  let ?jina = "\<lambda>texts :: jsstring list. EmbedData (Some (map length texts))"
  have t: "trim (article_content (article_with 1 (js ''x''))) \<noteq> []"
    "trim (article_content (article_with 2 (js ''yz''))) \<noteq> []"
    by (simp_all add: article_with_def trim_def is_ws_def js_def)
  then have a: "\<forall>a\<in>set ?articles. trim (article_content a) \<noteq> []"
    by simp
  have j: "\<forall>texts. ?jina texts = EmbedData (Some (map length texts))"
    by simp
  have l: "article_id (article_with 1 (js ''x'')) = 1" "article_id (article_with 2 (js ''yz'')) = 2"
    "length (article_content (article_with 1 (js ''x''))) = 1"
    "length (article_content (article_with 2 (js ''yz''))) = 2"
    by (simp_all add: article_with_def js_def)
  from embed_batches_pairs_own_embeddings [where jina = ?jina and E = length and articles = ?articles
      and now = "js ''now''", OF a j] l t
  show ?thesis by simp
qed

end
